theory Spec2Isabelle
  imports Main
begin

section \<open>Values shared by all components\<close>

text \<open>
  Python strings are modelled as \<open>string\<close>; a \<open>char\<close> stands for a code point below 256.
  Values read from JSON (the configuration, tool inputs, tool results) are \<open>json\<close>; an
  object keeps its entries in insertion order.
\<close>

datatype json =
    JNull
  | JBool bool
  | JNum int
  | JStr string
  | JArr "json list"
  | JObj "(string \<times> json) list"

text \<open>
  Exceptions are values. \<open>AttributeError\<close>, \<open>TypeError\<close> and \<open>IndexError\<close> are the ones
  the interpreter raises inside the embedded code; \<open>External\<close> is anything raised by a
  library call (transport, session protocol, model service), with its message.
\<close>

datatype exn = AttributeError | TypeError | IndexError | External string

text \<open>A connection to one backend (\<open>ClientSession\<close>) is an opaque handle; every handle is truthy.\<close>

type_synonym session = nat

text \<open>An attribute that an object may lack; \<open>getattr obj name default\<close> reads it.\<close>

datatype 'a attr = Absent | Present 'a

fun getattr :: "'a attr \<Rightarrow> 'a \<Rightarrow> 'a" where
  "getattr Absent d = d"
| "getattr (Present v) d = v"

subsection \<open>Insertion-ordered dictionaries\<close>

text \<open>
  \<open>self.sessions\<close> is a Python \<open>dict\<close>: keys are unique, iteration follows first insertion,
  and assigning to an existing key replaces the value in place.
\<close>

type_synonym ('k, 'v) dict = "('k \<times> 'v) list"

fun dict_set :: "'k \<Rightarrow> 'v \<Rightarrow> ('k, 'v) dict \<Rightarrow> ('k, 'v) dict" where
  "dict_set k v [] = [(k, v)]"
| "dict_set k v ((k', v') # d) = (if k = k' then (k, v) # d else (k', v') # dict_set k v d)"

definition dict_get :: "('k, 'v) dict \<Rightarrow> 'k \<Rightarrow> 'v option" where
  "dict_get d k = map_of d k"

section \<open>Conversation data\<close>

text \<open>
  A response segment of the model service: \<open>ToolUse id name input\<close> is a
  tool-invocation-request; \<open>OtherSegment\<close> is a block whose type is neither \<open>text\<close> nor
  \<open>tool_use\<close>.
\<close>

datatype segment =
    Text string
  | ToolUse string string json
  | OtherSegment

datatype role = User | Assistant

text \<open>
  The content of a transcript message. The assistant message holds the Python list
  \<open>assistant_content\<close> itself, not a copy, so in memory its content is a reference
  (\<open>'r = nat\<close>, an address in the store of segment lists); what the model service receives
  is the transcript with every reference read (\<open>'r = segment list\<close>).
\<close>

datatype 'r content =
    QueryText string
  | Segments 'r
  | ToolResult string json

type_synonym 'r message = "role \<times> 'r content"

type_synonym transcript = "segment list message list"

text \<open>The dictionaries appended to \<open>available_tools\<close> and \<open>available_prompts\<close>.\<close>

record tool_entry =
  t_name :: string
  t_description :: "string option"
  t_input_schema :: json

record prompt_entry =
  p_name :: string
  p_description :: "string option"
  p_arguments :: "string list"

section \<open>Observable events\<close>

text \<open>
  \<open>Print n args\<close> is the \<open>print\<close> statement on line \<open>n\<close> of the source with the values
  interpolated into its text, in order. The four \<open>\<dots>Call\<close> events record a call that
  leaves the process, with what it returned or raised.
\<close>

datatype arg = Str string | Num nat | Exn exn | Val json | OptStr "string option"

text \<open>
  The content of the first message of a materialised prompt: a string, an object with
  \<open>text\<close>, a sequence of items (each with \<open>text\<close>, or rendered by \<open>str\<close>), or an object that
  is none of these. A resource content item has \<open>text\<close> or is binary.
\<close>

datatype prompt_item = ItemText string | ItemOther string

datatype prompt_content =
    PStr string
  | PText string
  | PItems "prompt_item list"
  | POpaque

datatype resource_content = TextResource string | BlobResource

datatype event =
    Print nat "arg list"
  | ModelCall "tool_entry list" transcript "exn + segment list"
  | ToolCall session string json "exn + json"
  | PromptCall session string "(string, string) dict" "exn + prompt_content list"
  | ResourceCall session string "exn + resource_content list"

abbreviation no_servers_found :: event where
  "no_servers_found \<equiv> Print 100 []"

abbreviation text_out :: "string \<Rightarrow> event" where
  "text_out t \<equiv> Print 145 [Str t]"

abbreviation tool_not_found :: "string \<Rightarrow> event" where
  "tool_not_found name \<equiv> Print 155 [Str name]"

abbreviation resource_not_found :: "string \<Rightarrow> event" where
  "resource_not_found uri \<equiv> Print 185 [Str uri]"

abbreviation prompt_not_found :: "string \<Rightarrow> event" where
  "prompt_not_found name \<equiv> Print 218 [Str name]"

abbreviation usage :: event where
  "usage \<equiv> Print 308 []"

abbreviation failed_to_initialize :: event where
  "failed_to_initialize \<equiv> Print 342 []"

section \<open>The chatbot object\<close>

text \<open>
  \<open>MCP_ChatBot\<close>: the three fields of \<open>__init__\<close>, the state \<open>'w\<close> of the outside world
  (backends and model service) and the events so far.
\<close>

record 'w bot =
  available_tools :: "tool_entry list"
  available_prompts :: "prompt_entry list"
  sessions :: "(string, session) dict"
  world :: 'w
  trace :: "event list"

definition init :: "'w \<Rightarrow> 'w bot" where
  "init w = \<lparr>available_tools = [], available_prompts = [], sessions = [], world = w, trace = []\<rparr>"

definition emit :: "event \<Rightarrow> 'w bot \<Rightarrow> 'w bot" where
  "emit e b = b\<lparr>trace := trace b @ [e]\<rparr>"

section \<open>Backend Bootstrapper\<close>

text \<open>
  What a backend answers while it is connected and enumerated. A tool or prompt object
  always has its name; \<open>description\<close> may be \<open>None\<close>; the other attributes may be missing.
  The argument specs of a prompt are kept as their names.
\<close>

record mcp_tool =
  tool_name :: string
  tool_description :: "string option attr"
  tool_inputSchema :: "json attr"

record mcp_prompt =
  mp_name :: string
  mp_description :: "string option attr"
  mp_arguments :: "string list attr"

text \<open>
  One enumeration: \<open>Unsupported\<close> when a \<open>hasattr\<close> test fails (nothing is printed),
  \<open>Failed\<close> when the call raises, \<open>Listed\<close> with the objects otherwise.
\<close>

datatype 'a listing = Unsupported | Failed exn | Listed "'a list"

record backend =
  connect :: "exn + session"
  tools :: "mcp_tool listing"
  prompts :: "mcp_prompt listing"
  resources :: "string listing"

text \<open>
  Every configured server is launched and enumerated once, so the outside world of the
  bootstrap is a function from the server's name and launch specification to its answers.
\<close>

type_synonym launcher = "string \<Rightarrow> json \<Rightarrow> backend"

text \<open>Lines 43-49, 59-65 and 75-77: the three registration loops.\<close>

fun register_tools :: "session \<Rightarrow> mcp_tool list \<Rightarrow> 'w bot \<Rightarrow> 'w bot" where
  "register_tools s [] b = b"
| "register_tools s (t # ts) b =
     register_tools s ts
       (b\<lparr>sessions := dict_set (tool_name t) s (sessions b),
          available_tools := available_tools b @
            [\<lparr>t_name = tool_name t,
              t_description = getattr (tool_description t) (Some []),
              t_input_schema = getattr (tool_inputSchema t) (JObj [])\<rparr>]\<rparr>)"

fun register_prompts :: "session \<Rightarrow> mcp_prompt list \<Rightarrow> 'w bot \<Rightarrow> 'w bot" where
  "register_prompts s [] b = b"
| "register_prompts s (p # ps) b =
     register_prompts s ps
       (b\<lparr>sessions := dict_set (mp_name p) s (sessions b),
          available_prompts := available_prompts b @
            [\<lparr>p_name = mp_name p,
              p_description = getattr (mp_description p) (Some []),
              p_arguments = getattr (mp_arguments p) []\<rparr>]\<rparr>)"

fun register_resources :: "session \<Rightarrow> string list \<Rightarrow> 'w bot \<Rightarrow> 'w bot" where
  "register_resources s [] b = b"
| "register_resources s (resource_uri # rs) b =
     register_resources s rs (b\<lparr>sessions := dict_set resource_uri s (sessions b)\<rparr>)"

definition connect_to_server :: "string \<Rightarrow> backend \<Rightarrow> 'w bot \<Rightarrow> bool \<times> 'w bot" where
  "connect_to_server server_name be b =
     (let b0 = emit (Print 27 [Str server_name]) b in
      case connect be of
        Inl e \<Rightarrow> (False, emit (Print 86 [Str server_name, Exn e]) b0)
      | Inr s \<Rightarrow>
          let b1 = (case tools be of
                      Unsupported \<Rightarrow> b0
                    | Failed e \<Rightarrow> emit (Print 52 [Exn e]) b0
                    | Listed ts \<Rightarrow> emit (Print 50 [Num (length ts)]) (register_tools s ts b0));
              b2 = (case prompts be of
                      Unsupported \<Rightarrow> b1
                    | Failed e \<Rightarrow> emit (Print 68 [Exn e]) b1
                    | Listed ps \<Rightarrow>
                        if ps = [] then b1
                        else emit (Print 66 [Num (length ps)]) (register_prompts s ps b1));
              b3 = (case resources be of
                      Unsupported \<Rightarrow> b2
                    | Failed e \<Rightarrow> emit (Print 80 [Exn e]) b2
                    | Listed rs \<Rightarrow>
                        if rs = [] then b2
                        else emit (Print 78 [Num (length rs)]) (register_resources s rs b2))
          in (True, emit (Print 82 [Str server_name]) b3))"

text \<open>
  Line 105 formats the launch specification before connecting: \<open>server_config\<close> must have
  \<open>get\<close> (a JSON object) and \<open>' '.join\<close> must accept its \<open>args\<close>: a list of strings, a string
  (joined character by character) or an object (its keys are joined).
\<close>

fun intercalate :: "string \<Rightarrow> string list \<Rightarrow> string" where
  "intercalate sep [] = []"
| "intercalate sep [x] = x"
| "intercalate sep (x # y # ys) = x @ sep @ intercalate sep (y # ys)"

fun str_items :: "json list \<Rightarrow> exn + string list" where
  "str_items [] = Inr []"
| "str_items (JStr s # js) = (case str_items js of Inl e \<Rightarrow> Inl e | Inr ss \<Rightarrow> Inr (s # ss))"
| "str_items (_ # js) = Inl TypeError"

fun py_join :: "json \<Rightarrow> exn + string" where
  "py_join (JArr js) = (case str_items js of Inl e \<Rightarrow> Inl e | Inr ss \<Rightarrow> Inr (intercalate '' '' ss))"
| "py_join (JStr s) = Inr (intercalate '' '' (map (\<lambda>c. [c]) s))"
| "py_join (JObj kv) = Inr (intercalate '' '' (map fst kv))"
| "py_join _ = Inl TypeError"

fun command_line :: "json \<Rightarrow> exn + json \<times> string" where
  "command_line (JObj kv) =
     (case py_join (case map_of kv ''args'' of None \<Rightarrow> JArr [] | Some a \<Rightarrow> a) of
        Inl e \<Rightarrow> Inl e
      | Inr joined \<Rightarrow> Inr (case map_of kv ''command'' of None \<Rightarrow> JNull | Some c \<Rightarrow> c, joined))"
| "command_line _ = Inl AttributeError"

text \<open>Lines 103-109: the loop over \<open>servers.items()\<close>; an exception leaves it at once.\<close>

fun connect_all :: "launcher \<Rightarrow> (string \<times> json) list \<Rightarrow> 'w bot \<Rightarrow> exn \<times> 'w bot + 'w bot" where
  "connect_all L [] b = Inr b"
| "connect_all L ((server_name, server_config) # rest) b =
     (let b1 = emit (Print 104 [Str server_name]) b in
      case command_line server_config of
        Inl e \<Rightarrow> Inl (e, b1)
      | Inr (cmd, joined) \<Rightarrow>
          (case connect_to_server server_name (L server_name server_config)
                  (emit (Print 105 [Val cmd, Str joined]) b1) of
             (ok, b2) \<Rightarrow>
               connect_all L rest
                 (emit (Print (if ok then 107 else 109) [Str server_name]) b2)))"

text \<open>
  The configuration source: \<open>open\<close> raises \<open>FileNotFoundError\<close>, \<open>json.load\<close> raises
  \<open>JSONDecodeError\<close>, either raises something else, or the file parses to a value.
\<close>

datatype config_file = Missing | Malformed | Unreadable exn | Parsed json

text \<open>\<open>len(servers)\<close> on line 97.\<close>

fun py_len :: "json \<Rightarrow> exn + nat" where
  "py_len (JObj kv) = Inr (length kv)"
| "py_len (JArr js) = Inr (length js)"
| "py_len (JStr s) = Inr (length s)"
| "py_len _ = Inl TypeError"

definition connect_to_servers :: "launcher \<Rightarrow> config_file \<Rightarrow> 'w bot \<Rightarrow> bool \<times> 'w bot" where
  "connect_to_servers L file b =
     (let b0 = emit (Print 92 []) (emit (Print 90 []) b) in
      case file of
        Missing \<Rightarrow> (False, emit (Print 120 []) (emit (Print 119 []) b0))
      | Malformed \<Rightarrow> (False, emit (Print 123 []) b0)
      | Unreadable e \<Rightarrow> (False, emit (Print 126 [Exn e]) b0)
      | Parsed config \<Rightarrow>
          (case config of
             JObj kv \<Rightarrow>
               (let servers = (case map_of kv ''mcpServers'' of None \<Rightarrow> JObj [] | Some v \<Rightarrow> v) in
                case py_len servers of
                  Inl e \<Rightarrow> (False, emit (Print 126 [Exn e]) b0)
                | Inr n \<Rightarrow>
                    (let b1 = emit (Print 97 [Num n]) b0 in
                     if n = 0 then (False, emit no_servers_found b1)
                     else
                       (case servers of
                          JObj items \<Rightarrow>
                            (case connect_all L items b1 of
                               Inl (e, b2) \<Rightarrow> (False, emit (Print 126 [Exn e]) b2)
                             | Inr b2 \<Rightarrow>
                                 (True,
                                  emit (if available_tools b2 = [] then Print 112 []
                                        else Print 114 [Num (length (available_tools b2))]) b2))
                        | _ \<Rightarrow> (False, emit (Print 126 [Exn AttributeError]) b1))))
           | _ \<Rightarrow> (False, emit (Print 126 [Exn AttributeError]) b0)))"

section \<open>The outside world at run time\<close>

text \<open>
  The model service and the backends are opaque: each call takes the state of the
  world and returns the changed world with a result or an exception.
  \<open>create_message\<close> is \<open>self.anthropic.messages.create\<close> (its result is
  \<open>response.content\<close>), the other three are the methods of a session.
\<close>

record 'w service =
  create_message :: "tool_entry list \<Rightarrow> transcript \<Rightarrow> 'w \<Rightarrow> (exn + segment list) \<times> 'w"
  call_tool :: "session \<Rightarrow> string \<Rightarrow> json \<Rightarrow> 'w \<Rightarrow> (exn + json) \<times> 'w"
  get_prompt ::
    "session \<Rightarrow> string \<Rightarrow> (string, string) dict \<Rightarrow> 'w \<Rightarrow> (exn + prompt_content list) \<times> 'w"
  read_resource :: "session \<Rightarrow> string \<Rightarrow> 'w \<Rightarrow> (exn + resource_content list) \<times> 'w"

section \<open>Conversation Driver\<close>

text \<open>
  The local variables of \<open>process_query\<close>. \<open>store\<close> holds every \<open>assistant_content\<close>
  list created so far, by address: a message appended with \<open>Segments a\<close> sees later
  appends to the list at \<open>a\<close>.
\<close>

record locals =
  messages :: "nat message list"
  store :: "segment list list"
  has_tool_use :: bool

definition append_at :: "nat \<Rightarrow> segment \<Rightarrow> segment list list \<Rightarrow> segment list list" where
  "append_at a seg st = st[a := st ! a @ [seg]]"

fun read_content :: "segment list list \<Rightarrow> nat content \<Rightarrow> segment list content" where
  "read_content st (QueryText q) = QueryText q"
| "read_content st (Segments a) = Segments (st ! a)"
| "read_content st (ToolResult i r) = ToolResult i r"

definition read_transcript :: "segment list list \<Rightarrow> nat message list \<Rightarrow> transcript" where
  "read_transcript st ms = map (\<lambda>(r, c). (r, read_content st c)) ms"

text \<open>
  Lines 143-168: the loop over \<open>response.content\<close>, with \<open>assistant_content\<close> at address
  \<open>a\<close>. \<open>Inr\<close> is the loop left normally or by \<open>break\<close>, \<open>Inl\<close> an exception of
  \<open>call_tool\<close>.
\<close>

fun for_content ::
  "'w service \<Rightarrow> nat \<Rightarrow> segment list \<Rightarrow> 'w bot \<times> locals \<Rightarrow> exn \<times> 'w bot \<times> locals + 'w bot \<times> locals"
where
  "for_content E a [] (b, l) = Inr (b, l)"
| "for_content E a (Text t # rest) (b, l) =
     for_content E a rest (emit (text_out t) b, l\<lparr>store := append_at a (Text t) (store l)\<rparr>)"
| "for_content E a (ToolUse i name inp # rest) (b, l) =
     (let l1 = l\<lparr>has_tool_use := True,
                 store := append_at a (ToolUse i name inp) (store l),
                 messages := messages l @ [(Assistant, Segments a)]\<rparr>
      in case dict_get (sessions b) name of
           None \<Rightarrow> Inr (emit (tool_not_found name) b, l1)
         | Some s \<Rightarrow>
             (case call_tool E s name inp (world b) of
                (Inl e, w) \<Rightarrow> Inl (e, emit (ToolCall s name inp (Inl e)) (b\<lparr>world := w\<rparr>), l1)
              | (Inr r, w) \<Rightarrow>
                  for_content E a rest
                    (emit (ToolCall s name inp (Inr r)) (b\<lparr>world := w\<rparr>),
                     l1\<lparr>messages := messages l1 @ [(User, ToolResult i r)]\<rparr>)))"
| "for_content E a (OtherSegment # rest) (b, l) = for_content E a rest (b, l)"

text \<open>Lines 133-172: one round of the \<open>while True\<close> loop.\<close>

datatype 'a round = Again 'a | Finished 'a | Raised exn 'a

definition loop_body :: "'w service \<Rightarrow> 'w bot \<times> locals \<Rightarrow> ('w bot \<times> locals) round" where
  "loop_body E = (\<lambda>(b, l).
     let sent = read_transcript (store l) (messages l) in
     case create_message E (available_tools b) sent (world b) of
       (Inl e, w) \<Rightarrow> Raised e (emit (ModelCall (available_tools b) sent (Inl e)) (b\<lparr>world := w\<rparr>), l)
     | (Inr response, w) \<Rightarrow>
         (case for_content E (length (store l)) response
                 (emit (ModelCall (available_tools b) sent (Inr response)) (b\<lparr>world := w\<rparr>),
                  l\<lparr>store := store l @ [[]], has_tool_use := False\<rparr>) of
            Inl (e, s) \<Rightarrow> Raised e s
          | Inr (b', l') \<Rightarrow> if \<not> has_tool_use l' then Finished (b', l') else Again (b', l')))"

text \<open>
  The loop may run forever, so it is given a number of rounds it may use; \<open>None\<close> means
  that it is still running after that many.
\<close>

datatype 'a outcome = Returned 'a | Raises exn 'a

fun while_loop :: "nat \<Rightarrow> 'w service \<Rightarrow> 'w bot \<times> locals \<Rightarrow> ('w bot \<times> locals) outcome option" where
  "while_loop 0 E s = None"
| "while_loop (Suc n) E s =
     (case loop_body E s of
        Again s' \<Rightarrow> while_loop n E s'
      | Finished s' \<Rightarrow> Some (Returned s')
      | Raised e s' \<Rightarrow> Some (Raises e s'))"

text \<open>
  Line 130. \<open>has_tool_use\<close> is assigned at the start of every round, so the value given
  here is never read.
\<close>

definition query_locals :: "string \<Rightarrow> locals" where
  "query_locals query = \<lparr>messages = [(User, QueryText query)], store = [], has_tool_use = False\<rparr>"

definition process_query :: "nat \<Rightarrow> 'w service \<Rightarrow> string \<Rightarrow> 'w bot \<Rightarrow> 'w bot outcome option" where
  "process_query fuel E query b =
     (case while_loop fuel E (b, query_locals query) of
        None \<Rightarrow> None
      | Some (Returned (b', l)) \<Rightarrow> Some (Returned b')
      | Some (Raises e (b', l)) \<Rightarrow> Some (Raises e b'))"

section \<open>Resource retrieval, prompt listing and prompt execution\<close>

definition startswith :: "string \<Rightarrow> string \<Rightarrow> bool" where
  "startswith s p = (take (length p) s = p)"

text \<open>Lines 179-182: the first entry, in dictionary order, whose key has the scheme.\<close>

fun first_papers :: "(string, session) dict \<Rightarrow> session option" where
  "first_papers [] = None"
| "first_papers ((uri, sess) # d) =
     (if startswith uri ''papers://'' then Some sess else first_papers d)"

text \<open>Lines 175-182.\<close>

definition resolve_resource :: "(string, session) dict \<Rightarrow> string \<Rightarrow> session option" where
  "resolve_resource S resource_uri =
     (case dict_get S resource_uri of
        Some s \<Rightarrow> Some s
      | None \<Rightarrow> if startswith resource_uri ''papers://'' then first_papers S else None)"

definition get_resource :: "'w service \<Rightarrow> string \<Rightarrow> 'w bot \<Rightarrow> 'w bot" where
  "get_resource E resource_uri b =
     (case resolve_resource (sessions b) resource_uri of
        None \<Rightarrow> emit (resource_not_found resource_uri) b
      | Some s \<Rightarrow>
          (case read_resource E s resource_uri (world b) of
             (Inl e, w) \<Rightarrow>
               emit (Print 197 [Exn e]) (emit (ResourceCall s resource_uri (Inl e)) (b\<lparr>world := w\<rparr>))
           | (Inr contents, w) \<Rightarrow>
               (let b1 = emit (ResourceCall s resource_uri (Inr contents)) (b\<lparr>world := w\<rparr>) in
                case contents of
                  [] \<Rightarrow> emit (Print 195 []) b1
                | c # _ \<Rightarrow>
                    (let b2 = emit (Print 192 []) (emit (Print 191 [Str resource_uri]) b1) in
                     case c of
                       TextResource t \<Rightarrow> emit (Print 193 [Str t]) b2
                     | BlobResource \<Rightarrow> emit (Print 197 [Exn AttributeError]) b2))))"

fun print_arguments :: "string list \<Rightarrow> 'w bot \<Rightarrow> 'w bot" where
  "print_arguments [] b = b"
| "print_arguments (arg_name # rest) b = print_arguments rest (emit (Print 212 [Str arg_name]) b)"

fun print_prompts :: "prompt_entry list \<Rightarrow> 'w bot \<Rightarrow> 'w bot" where
  "print_prompts [] b = b"
| "print_prompts (p # ps) b =
     (let b1 = emit (Print 207 [Str (p_name p), OptStr (p_description p)]) b in
      print_prompts ps
        (if p_arguments p = [] then b1
         else print_arguments (p_arguments p) (emit (Print 209 []) b1)))"

definition list_prompts :: "'w bot \<Rightarrow> 'w bot" where
  "list_prompts b =
     (if available_prompts b = [] then emit (Print 202 []) b
      else print_prompts (available_prompts b) (emit (Print 205 []) b))"

text \<open>Lines 227-234: the text of a prompt's first message.\<close>

fun item_text :: "prompt_item \<Rightarrow> string" where
  "item_text (ItemText t) = t"
| "item_text (ItemOther t) = t"

fun prompt_text :: "prompt_content \<Rightarrow> exn + string" where
  "prompt_text (PStr t) = Inr t"
| "prompt_text (PText t) = Inr t"
| "prompt_text (PItems items) = Inr (intercalate '' '' (map item_text items))"
| "prompt_text POpaque = Inl TypeError"

definition execute_prompt ::
  "nat \<Rightarrow> 'w service \<Rightarrow> string \<Rightarrow> (string, string) dict \<Rightarrow> 'w bot \<Rightarrow> 'w bot option"
where
  "execute_prompt fuel E prompt_name args b =
     (case dict_get (sessions b) prompt_name of
        None \<Rightarrow> Some (emit (prompt_not_found prompt_name) b)
      | Some s \<Rightarrow>
          (case get_prompt E s prompt_name args (world b) of
             (Inl e, w) \<Rightarrow>
               Some (emit (Print 239 [Exn e])
                       (emit (PromptCall s prompt_name args (Inl e)) (b\<lparr>world := w\<rparr>)))
           | (Inr msgs, w) \<Rightarrow>
               (let b1 = emit (PromptCall s prompt_name args (Inr msgs)) (b\<lparr>world := w\<rparr>) in
                case msgs of
                  [] \<Rightarrow> Some b1
                | prompt_content # _ \<Rightarrow>
                    (case prompt_text prompt_content of
                       Inl e \<Rightarrow> Some (emit (Print 239 [Exn e]) b1)
                     | Inr text \<Rightarrow>
                         (case process_query fuel E text (emit (Print 236 [Str prompt_name]) b1) of
                            None \<Rightarrow> None
                          | Some (Returned b2) \<Rightarrow> Some b2
                          | Some (Raises e b2) \<Rightarrow> Some (emit (Print 239 [Exn e]) b2))))))"

section \<open>Command Dispatcher\<close>

text \<open>\<open>str.strip\<close>, \<open>str.lower\<close> and \<open>str.split\<close> without argument, on code points below 256.\<close>

definition isspace :: "char \<Rightarrow> bool" where
  "isspace c = (c \<in> set [CHR 0x09, CHR 0x0A, CHR 0x0B, CHR 0x0C, CHR 0x0D, CHR 0x1C, CHR 0x1D,
                          CHR 0x1E, CHR 0x1F, CHR 0x20, CHR 0x85, CHR 0xA0])"

definition strip :: "string \<Rightarrow> string" where
  "strip s = rev (dropWhile isspace (rev (dropWhile isspace s)))"

definition lower_char :: "char \<Rightarrow> char" where
  "lower_char c =
     (let n = (of_char c :: nat)
      in if (65 \<le> n \<and> n \<le> 90) \<or> (192 \<le> n \<and> n \<le> 214) \<or> (216 \<le> n \<and> n \<le> 222)
         then char_of (n + 32) else c)"

definition lower :: "string \<Rightarrow> string" where
  "lower s = map lower_char s"

fun split_from :: "string \<Rightarrow> string \<Rightarrow> string list" where
  "split_from cur [] = (if cur = [] then [] else [cur])"
| "split_from cur (c # cs) =
     (if isspace c then (if cur = [] then split_from [] cs else cur # split_from [] cs)
      else split_from (cur @ [c]) cs)"

definition split :: "string \<Rightarrow> string list" where
  "split s = split_from [] s"

text \<open>Lines 315-318: the loop over \<open>parts[2:]\<close>; \<open>arg.split('=', 1)\<close> cuts at the first \<open>=\<close>.\<close>

fun parse_args :: "string list \<Rightarrow> (string, string) dict \<Rightarrow> (string, string) dict" where
  "parse_args [] args = args"
| "parse_args (arg # rest) args =
     parse_args rest
       (if CHR ''='' \<in> set arg
        then dict_set (takeWhile (\<lambda>c. c \<noteq> CHR ''='') arg)
                      (tl (dropWhile (\<lambda>c. c \<noteq> CHR ''='') arg)) args
        else args)"

datatype flow = Continue | Break

text \<open>
  Lines 282-328: one iteration of the interactive loop once \<open>input\<close> has returned \<open>raw\<close>.
  \<open>None\<close> means that a query is still running after \<open>fuel\<close> rounds.
\<close>

definition chat_loop_body :: "nat \<Rightarrow> 'w service \<Rightarrow> string \<Rightarrow> 'w bot \<Rightarrow> (flow \<times> 'w bot) option" where
  "chat_loop_body fuel E raw b =
     (let query = strip raw in
      if query = [] then Some (Continue, b)
      else if lower query = ''quit'' then Some (Break, b)
      else if startswith query ''@'' then
        (let topic = tl query;
             resource_uri = (if topic = ''folders'' then ''papers://folders''
                             else ''papers://'' @ topic)
         in Some (Continue, get_resource E resource_uri b))
      else if startswith query ''/'' then
        (let parts = split query in
         if parts = [] then Some (Continue, emit (Print 328 [Exn IndexError]) b)
         else
           (let command = lower (parts ! 0) in
            if command = ''/prompts'' then Some (Continue, list_prompts b)
            else if command = ''/prompt'' then
              (if length parts < 2 then Some (Continue, emit usage b)
               else
                 (case execute_prompt fuel E (parts ! 1) (parse_args (drop 2 parts) []) b of
                    None \<Rightarrow> None
                  | Some b' \<Rightarrow> Some (Continue, b')))
            else Some (Continue, emit (Print 322 [Str command]) b)))
      else
        (case process_query fuel E query b of
           None \<Rightarrow> None
         | Some (Returned b') \<Rightarrow> Some (Continue, b')
         | Some (Raises e b') \<Rightarrow> Some (Continue, emit (Print 328 [Exn e]) b')))"

text \<open>
  What \<open>input\<close> does at one prompt. The interactive loop is observed for the inputs
  given; it ends earlier at \<open>quit\<close>.
\<close>

datatype input = Line string | EOFError | KeyboardInterrupt

fun chat_loop_from :: "nat \<Rightarrow> 'w service \<Rightarrow> input list \<Rightarrow> 'w bot \<Rightarrow> 'w bot option" where
  "chat_loop_from fuel E [] b = Some b"
| "chat_loop_from fuel E (EOFError # rest) b = chat_loop_from fuel E rest (emit (Print 276 []) b)"
| "chat_loop_from fuel E (KeyboardInterrupt # rest) b =
     chat_loop_from fuel E rest (emit (Print 279 []) b)"
| "chat_loop_from fuel E (Line raw # rest) b =
     (case chat_loop_body fuel E raw b of
        None \<Rightarrow> None
      | Some (Break, b') \<Rightarrow> Some b'
      | Some (Continue, b') \<Rightarrow> chat_loop_from fuel E rest b')"

fun emit_lines :: "nat list \<Rightarrow> 'w bot \<Rightarrow> 'w bot" where
  "emit_lines [] b = b"
| "emit_lines (n # ns) b = emit_lines ns (emit (Print n []) b)"

definition chat_loop :: "nat \<Rightarrow> 'w service \<Rightarrow> input list \<Rightarrow> 'w bot \<Rightarrow> 'w bot option" where
  "chat_loop fuel E inputs b =
     chat_loop_from fuel E inputs (emit_lines [261, 262, 263, 264, 265, 266, 267, 268] b)"

text \<open>Lines 337-352 of \<open>main\<close>.\<close>

definition main ::
  "nat \<Rightarrow> launcher \<Rightarrow> 'w service \<Rightarrow> config_file \<Rightarrow> input list \<Rightarrow> 'w \<Rightarrow> 'w bot option"
where
  "main fuel L E file inputs w =
     (case connect_to_servers L file (emit (Print 338 []) (init w)) of
        (False, b) \<Rightarrow> Some (emit failed_to_initialize b)
      | (True, b) \<Rightarrow> chat_loop fuel E inputs (emit_lines [345, 346, 347, 348, 349, 350] b))"

section \<open>Concrete inputs\<close>

text \<open>A launcher whose servers cannot be started, and a service that never asks for a tool.\<close>

definition no_backend :: launcher where
  "no_backend server_name server_config =
     \<lparr>connect = Inl (External ''no such command''), tools = Unsupported,
      prompts = Unsupported, resources = Unsupported\<rparr>"

definition idle_service :: "unit service" where
  "idle_service =
     \<lparr>create_message = (\<lambda>ts t w. (Inr [], w)),
      call_tool = (\<lambda>s n x w. (Inr JNull, w)),
      get_prompt = (\<lambda>s n a w. (Inr [], w)),
      read_resource = (\<lambda>s u w. (Inr [], w))\<rparr>"

text \<open>
  The names and URIs a backend's answers make \<open>connect_to_server\<close> register: nothing when
  the connection fails, otherwise whatever the three enumerations list.
\<close>

fun listed :: "'a listing \<Rightarrow> 'a list" where
  "listed (Listed xs) = xs"
| "listed Unsupported = []"
| "listed (Failed e) = []"

definition registered_keys :: "backend \<Rightarrow> string list" where
  "registered_keys be =
     (case connect be of
        Inl e \<Rightarrow> []
      | Inr s \<Rightarrow> map tool_name (listed (tools be)) @ map mp_name (listed (prompts be))
                 @ listed (resources be))"

text \<open>Two servers that both offer a tool called \<open>search\<close>.\<close>

definition search_tool :: mcp_tool where
  "search_tool = \<lparr>tool_name = ''search'', tool_description = Present None, tool_inputSchema = Absent\<rparr>"

definition two_backends :: launcher where
  "two_backends server_name server_config =
     (if server_name = ''first''
      then \<lparr>connect = Inr 1, tools = Listed [search_tool], prompts = Listed [],
            resources = Unsupported\<rparr>
      else \<lparr>connect = Inr 2, tools = Listed [search_tool], prompts = Failed (External ''timeout''),
            resources = Listed [''papers://folders'']\<rparr>)"

text \<open>The same two servers when the second offers only a resource.\<close>

definition disjoint_backends :: launcher where
  "disjoint_backends server_name server_config =
     (if server_name = ''first''
      then \<lparr>connect = Inr 1, tools = Listed [search_tool], prompts = Listed [],
            resources = Unsupported\<rparr>
      else \<lparr>connect = Inr 2, tools = Unsupported, prompts = Failed (External ''timeout''),
            resources = Listed [''papers://folders'']\<rparr>)"

definition two_servers :: "(string \<times> json) list" where
  "two_servers =
     [(''first'', JObj [(''command'', JStr ''uv''), (''args'', JArr [JStr ''run'', JStr ''a.py''])]),
      (''second'', JObj [(''command'', JStr ''npx'')])]"

text \<open>
  Observations on a run: the state a loop ends in, whether normally or by an exception;
  the tool-invocation-requests of a response (id, name, input), in order; the tool calls
  among some events; the tool results (id, content) among some messages; what the calls
  that did not raise returned.
\<close>

fun final_state :: "exn \<times> 's + 's \<Rightarrow> 's" where
  "final_state (Inl (e, s)) = s"
| "final_state (Inr s) = s"

fun round_state :: "'s round \<Rightarrow> 's" where
  "round_state (Again s) = s"
| "round_state (Finished s) = s"
| "round_state (Raised e s) = s"

fun tool_uses :: "segment list \<Rightarrow> (string \<times> string \<times> json) list" where
  "tool_uses [] = []"
| "tool_uses (ToolUse i name inp # rest) = (i, name, inp) # tool_uses rest"
| "tool_uses (Text t # rest) = tool_uses rest"
| "tool_uses (OtherSegment # rest) = tool_uses rest"

fun calls_of :: "event list \<Rightarrow> (session \<times> string \<times> json \<times> (exn + json)) list" where
  "calls_of [] = []"
| "calls_of (ToolCall s name inp r # es) = (s, name, inp, r) # calls_of es"
| "calls_of (Print n args # es) = calls_of es"
| "calls_of (ModelCall ts t r # es) = calls_of es"
| "calls_of (PromptCall s name args r # es) = calls_of es"
| "calls_of (ResourceCall s uri r # es) = calls_of es"

fun results_of :: "'r message list \<Rightarrow> (string \<times> json) list" where
  "results_of [] = []"
| "results_of ((who, ToolResult i r) # ms) = (i, r) # results_of ms"
| "results_of ((who, QueryText q) # ms) = results_of ms"
| "results_of ((who, Segments c) # ms) = results_of ms"

fun returned :: "(session \<times> string \<times> json \<times> (exn + json)) list \<Rightarrow> json list" where
  "returned [] = []"
| "returned ((s, name, inp, Inr r) # cs) = r # returned cs"
| "returned ((s, name, inp, Inl e) # cs) = returned cs"



text \<open>
  A model service that gives the responses of a list one after the other (the world counts
  the calls), with backends on which the tool \<open>boom\<close> raises and every other tool returns
  its own name; and a chatbot that has two tools registered.
\<close>

definition scripted :: "segment list list \<Rightarrow> nat service" where
  "scripted rs =
     \<lparr>create_message = (\<lambda>ts t w. (if w < length rs then Inr (rs ! w)
                                    else Inl (External ''no response''), Suc w)),
      call_tool = (\<lambda>s n x w. (if n = ''boom'' then Inl (External ''backend failed'')
                                else Inr (JStr n), w)),
      get_prompt = (\<lambda>s n a w. (Inr [PStr ''hello''], w)),
      read_resource = (\<lambda>s u w. (Inr [TextResource u], w))\<rparr>"

definition demo_bot :: "nat bot" where
  "demo_bot = (init 0)\<lparr>sessions := [(''search'', 1), (''boom'', 2)]\<rparr>"

text \<open>Concrete responses and backends used to instantiate the theorems.\<close>

fun outcome_state :: "'s outcome \<Rightarrow> 's" where
  "outcome_state (Returned s) = s"
| "outcome_state (Raises e s) = s"

definition missing_tool_script :: "segment list list" where
  "missing_tool_script =
     [[ToolUse ''id1'' ''search'' JNull, ToolUse ''id2'' ''missing'' JNull,
       ToolUse ''id3'' ''search'' JNull],
      [Text ''done'']]"

definition two_request_script :: "segment list list" where
  "two_request_script =
     [[ToolUse ''id1'' ''search'' JNull, ToolUse ''id2'' ''search'' JNull], [Text ''done'']]"

definition two_requests :: "segment list" where
  "two_requests = [Text ''hi'', ToolUse ''id1'' ''search'' JNull, ToolUse ''id2'' ''search'' (JStr ''x'')]"

definition prompt_backend :: backend where
  "prompt_backend =
     \<lparr>connect = Inr 2, tools = Unsupported,
      prompts = Listed [\<lparr>mp_name = ''search'', mp_description = Absent, mp_arguments = Absent\<rparr>],
      resources = Unsupported\<rparr>"

text \<open>A chatbot with a tool, a resource of the \<open>papers\<close> scheme and a prompt registered.\<close>

definition papers_bot :: "nat bot" where
  "papers_bot = (init 0)\<lparr>sessions := [(''search'', 1), (''papers://folders'', 2), (''foo'', 3)]\<rparr>"

section \<open>Auxiliary facts\<close>

lemma dict_get_dict_set:
  "dict_get (dict_set k v d) k' = (if k' = k then Some v else dict_get d k')"
  by (induction d) (auto simp: dict_get_def)

lemma emit_fields [simp]:
  "available_tools (emit e b) = available_tools b"
  "available_prompts (emit e b) = available_prompts b"
  "sessions (emit e b) = sessions b"
  "world (emit e b) = world b"
  "trace (emit e b) = trace b @ [e]"
  by (simp_all add: emit_def)

section \<open>Bootstrap with no configured backend\<close>

text \<open>
  C1, as stated, fails: with an empty \<open>mcpServers\<close> object the bootstrap returns \<open>False\<close>,
  not the success value.
\<close>

theorem C1_empty_servers_counterexample:
  "fst (connect_to_servers no_backend (Parsed (JObj [(''mcpServers'', JObj [])])) (init ())) = False"
  by (simp add: connect_to_servers_def)

text \<open>
  C1, amended: when the configuration is a JSON object whose \<open>mcpServers\<close> entry is absent
  or an empty object, \<open>connect_to_servers\<close> prints "No servers found in configuration"
  (line 100) and returns \<open>False\<close>; the tool list and the prompt list are empty and no name or
  URI resolves; \<open>main\<close> then prints the failure message of line 342 and returns, so the
  interactive loop does not start and no input is read.
\<close>

theorem C1_no_servers_is_failure:
  assumes "map_of kv ''mcpServers'' = None \<or> map_of kv ''mcpServers'' = Some (JObj [])"
  shows "connect_to_servers L (Parsed (JObj kv)) (init w)
           = (False, (init w)\<lparr>trace := [Print 90 [], Print 92 [], Print 97 [Num 0], no_servers_found]\<rparr>)
       \<and> available_tools (snd (connect_to_servers L (Parsed (JObj kv)) (init w))) = []
       \<and> available_prompts (snd (connect_to_servers L (Parsed (JObj kv)) (init w))) = []
       \<and> (\<forall>key. dict_get (sessions (snd (connect_to_servers L (Parsed (JObj kv)) (init w)))) key = None)
       \<and> (\<forall>uri. resolve_resource (sessions (snd (connect_to_servers L (Parsed (JObj kv)) (init w)))) uri = None)
       \<and> main fuel L E (Parsed (JObj kv)) inputs w
           = Some ((init w)\<lparr>trace := [Print 338 [], Print 90 [], Print 92 [], Print 97 [Num 0],
                                       no_servers_found, failed_to_initialize]\<rparr>)"
  using assms
  by (auto simp: connect_to_servers_def main_def emit_def init_def dict_get_def resolve_resource_def)

theorem C1_no_servers_is_failure_witness:
  "main 5 no_backend idle_service (Parsed (JObj [(''other'', JNull)])) [Line ''hello''] ()
     = Some ((init ())\<lparr>trace := [Print 338 [], Print 90 [], Print 92 [], Print 97 [Num 0],
                                  no_servers_found, failed_to_initialize]\<rparr>)
   \<and> connect_to_servers no_backend (Parsed (JObj [(''mcpServers'', JObj [])])) (init ())
     = (False, (init ())\<lparr>trace := [Print 90 [], Print 92 [], Print 97 [Num 0], no_servers_found]\<rparr>)"
  using C1_no_servers_is_failure
          [of "[(''other'', JNull)]" no_backend "()" 5 idle_service "[Line ''hello'']"]
        C1_no_servers_is_failure
          [of "[(''mcpServers'', JObj [])]" no_backend "()" 5 idle_service "[]"]
  by simp

section \<open>Registration of capabilities\<close>

lemma sessions_register_tools:
  "dict_get (sessions (register_tools s ts b)) k =
     (if k \<in> tool_name ` set ts then Some s else dict_get (sessions b) k)"
  by (induction ts arbitrary: b) (auto simp: dict_get_dict_set)

lemma sessions_register_prompts:
  "dict_get (sessions (register_prompts s ps b)) k =
     (if k \<in> mp_name ` set ps then Some s else dict_get (sessions b) k)"
  by (induction ps arbitrary: b) (auto simp: dict_get_dict_set)

lemma sessions_register_resources:
  "dict_get (sessions (register_resources s rs b)) k =
     (if k \<in> set rs then Some s else dict_get (sessions b) k)"
  by (induction rs arbitrary: b) (auto simp: dict_get_dict_set)

lemma sessions_connect_to_server:
  "dict_get (sessions (snd (connect_to_server n be b))) k =
     (if k \<in> set (registered_keys be)
      then (case connect be of Inl e \<Rightarrow> None | Inr s \<Rightarrow> Some s)
      else dict_get (sessions b) k)"
  by (cases "tools be"; cases "prompts be"; cases "resources be")
     (auto simp: connect_to_server_def registered_keys_def Let_def sessions_register_tools
        sessions_register_prompts sessions_register_resources
        split: sum.splits)

lemma connect_all_append:
  "connect_all L (xs @ ys) b =
     (case connect_all L xs b of Inl e \<Rightarrow> Inl e | Inr b1 \<Rightarrow> connect_all L ys b1)"
  by (induction xs arbitrary: b) (auto simp: Let_def split: sum.splits prod.splits)

lemma connect_all_total:
  "\<forall>sc \<in> set servers. \<not> isl (command_line (snd sc)) \<Longrightarrow> \<exists>b'. connect_all L servers b = Inr b'"
  by (induction servers arbitrary: b) (auto simp: Let_def split: sum.splits prod.splits)

lemma connect_all_other_keys:
  "connect_all L servers b = Inr b' \<Longrightarrow>
   \<forall>(n, c) \<in> set servers. key \<notin> set (registered_keys (L n c)) \<Longrightarrow>
   dict_get (sessions b') key = dict_get (sessions b) key"
proof (induction servers arbitrary: b)
  case Nil
  then show ?case by simp
next
  case (Cons sc servers)
  obtain n c where sc: "sc = (n, c)" by (cases sc)
  from Cons.prems(1) sc obtain cmd joined where cl: "command_line c = Inr (cmd, joined)"
    by (auto simp: Let_def split: sum.splits)
  obtain ok b2 where c2: "connect_to_server n (L n c) (emit (Print 105 [Val cmd, Str joined]) (emit (Print 104 [Str n]) b)) = (ok, b2)"
    by (cases "connect_to_server n (L n c) (emit (Print 105 [Val cmd, Str joined]) (emit (Print 104 [Str n]) b))")
  from Cons.prems(1) sc cl c2
  have rest: "connect_all L servers (emit (Print (if ok then 107 else 109) [Str n]) b2) = Inr b'"
    by (simp add: Let_def)
  have "dict_get (sessions b') key = dict_get (sessions (emit (Print (if ok then 107 else 109) [Str n]) b2)) key"
    using Cons.IH [OF rest] Cons.prems(2) by simp
  also have "\<dots> = dict_get (sessions (snd (connect_to_server n (L n c) (emit (Print 105 [Val cmd, Str joined]) (emit (Print 104 [Str n]) b))))) key"
    using c2 by simp
  also have "\<dots> = dict_get (sessions b) key"
    using Cons.prems(2) sc by (simp add: sessions_connect_to_server)
  finally show ?case .
qed

lemma connect_all_last_wins:
  assumes run: "connect_all L (early @ (n, c) # late) b = Inr b'"
      and key: "key \<in> set (registered_keys (L n c))"
      and late: "\<forall>(n', c') \<in> set late. key \<notin> set (registered_keys (L n' c'))"
  shows "\<exists>s. connect (L n c) = Inr s \<and> dict_get (sessions b') key = Some s"
proof -
  from run obtain b1 where b1: "connect_all L early b = Inr b1"
      and run1: "connect_all L ((n, c) # late) b1 = Inr b'"
    by (auto simp: connect_all_append split: sum.splits)
  from run1 obtain cmd joined where cl: "command_line c = Inr (cmd, joined)"
    by (auto simp: Let_def split: sum.splits)
  let ?b = "emit (Print 105 [Val cmd, Str joined]) (emit (Print 104 [Str n]) b1)"
  obtain ok b2 where c2: "connect_to_server n (L n c) ?b = (ok, b2)"
    by (cases "connect_to_server n (L n c) ?b")
  from run1 cl c2
  have rest: "connect_all L late (emit (Print (if ok then 107 else 109) [Str n]) b2) = Inr b'"
    by (simp add: Let_def)
  have "dict_get (sessions b') key = dict_get (sessions b2) key"
    using connect_all_other_keys [OF rest late] by simp
  also have "\<dots> = dict_get (sessions (snd (connect_to_server n (L n c) ?b))) key"
    using c2 by simp
  also have "\<dots> = (case connect (L n c) of Inl e \<Rightarrow> None | Inr s \<Rightarrow> Some s)"
    using key by (simp add: sessions_connect_to_server)
  finally have eq: "dict_get (sessions b') key = (case connect (L n c) of Inl e \<Rightarrow> None | Inr s \<Rightarrow> Some s)" .
  from key obtain s where "connect (L n c) = Inr s"
    by (cases "connect (L n c)") (auto simp: registered_keys_def)
  with eq show ?thesis by simp
qed

text \<open>
  C7: when the configuration names at least one server and every launch specification
  can be printed (line 105), the bootstrap returns \<open>True\<close>, so registering raises nothing,
  and a key resolves to the connection of the last server, in processing order, whose
  answers registered it, whichever earlier servers registered it too. In particular, when
  the keys of different servers are pairwise distinct, every registered key resolves to the
  connection that registered it.
\<close>

theorem C7_last_registration_wins:
  assumes cfg: "map_of kv ''mcpServers'' = Some (JObj servers)" "servers \<noteq> []"
      and specs: "\<forall>sc \<in> set servers. \<not> isl (command_line (snd sc))"
  shows "\<exists>b'. connect_to_servers L (Parsed (JObj kv)) b = (True, b')
      \<and> (\<forall>early server_name server_config late key.
            servers = early @ (server_name, server_config) # late
            \<and> key \<in> set (registered_keys (L server_name server_config))
            \<and> (\<forall>(n, c) \<in> set late. key \<notin> set (registered_keys (L n c)))
            \<longrightarrow> (\<exists>s. connect (L server_name server_config) = Inr s
                     \<and> dict_get (sessions b') key = Some s))
      \<and> ((\<forall>i < length servers. \<forall>j < length servers. i \<noteq> j \<longrightarrow>
              set (registered_keys (L (fst (servers ! i)) (snd (servers ! i))))
              \<inter> set (registered_keys (L (fst (servers ! j)) (snd (servers ! j)))) = {})
           \<longrightarrow> (\<forall>(server_name, server_config) \<in> set servers.
                  \<forall>key \<in> set (registered_keys (L server_name server_config)).
                    \<exists>s. connect (L server_name server_config) = Inr s
                      \<and> dict_get (sessions b') key = Some s))"
proof -
  let ?b1 = "emit (Print 97 [Num (length servers)]) (emit (Print 92 []) (emit (Print 90 []) b))"
  from connect_all_total [OF specs] obtain b2 where run: "connect_all L servers ?b1 = Inr b2"
    by blast
  let ?b' = "emit (if available_tools b2 = [] then Print 112 []
                   else Print 114 [Num (length (available_tools b2))]) b2"
  have res: "connect_to_servers L (Parsed (JObj kv)) b = (True, ?b')"
    using cfg run by (simp add: connect_to_servers_def Let_def)
  have wins: "\<exists>s. connect (L n c) = Inr s \<and> dict_get (sessions ?b') key = Some s"
    if "servers = early @ (n, c) # late" "key \<in> set (registered_keys (L n c))"
       "\<forall>(n', c') \<in> set late. key \<notin> set (registered_keys (L n' c'))"
    for early n c late key
    using connect_all_last_wins [of L early n c late ?b1 b2 key] run that by simp
  have distinct: "\<exists>s. connect (L n c) = Inr s \<and> dict_get (sessions ?b') key = Some s"
    if disj: "\<forall>i < length servers. \<forall>j < length servers. i \<noteq> j \<longrightarrow>
              set (registered_keys (L (fst (servers ! i)) (snd (servers ! i))))
              \<inter> set (registered_keys (L (fst (servers ! j)) (snd (servers ! j)))) = {}"
      and mem: "(n, c) \<in> set servers" and key: "key \<in> set (registered_keys (L n c))"
    for n c key
  proof -
    from mem obtain i where i: "i < length servers" "servers ! i = (n, c)"
      by (auto simp: in_set_conv_nth)
    let ?early = "take i servers" and ?late = "drop (Suc i) servers"
    have split: "servers = ?early @ (n, c) # ?late"
      using i id_take_nth_drop [of i servers] by simp
    have "key \<notin> set (registered_keys (L n' c'))" if "(n', c') \<in> set ?late" for n' c'
    proof -
      from that obtain j where j: "j < length ?late" "?late ! j = (n', c')"
        by (auto simp: in_set_conv_nth)
      then have j': "Suc i + j < length servers" "servers ! (Suc i + j) = (n', c')"
        by auto
      from disj i(1) j'(1) have "set (registered_keys (L (fst (servers ! i)) (snd (servers ! i))))
              \<inter> set (registered_keys (L (fst (servers ! (Suc i + j))) (snd (servers ! (Suc i + j))))) = {}"
        by auto
      with i(2) j'(2) key show ?thesis by auto
    qed
    then have "\<forall>(n', c') \<in> set ?late. key \<notin> set (registered_keys (L n' c'))" by auto
    from wins [OF split key this] show ?thesis .
  qed
  from res wins distinct show ?thesis by (intro exI [of _ ?b']) blast
qed

theorem C7_last_registration_wins_witness:
  "fst (connect_to_servers two_backends (Parsed (JObj [(''mcpServers'', JObj two_servers)])) (init ()))
   \<and> dict_get (sessions (snd (connect_to_servers two_backends
                (Parsed (JObj [(''mcpServers'', JObj two_servers)])) (init ())))) ''search'' = Some 2
   \<and> dict_get (sessions (snd (connect_to_servers disjoint_backends
                (Parsed (JObj [(''mcpServers'', JObj two_servers)])) (init ())))) ''search'' = Some 1
   \<and> dict_get (sessions (snd (connect_to_servers disjoint_backends
                (Parsed (JObj [(''mcpServers'', JObj two_servers)])) (init ()))))
         ''papers://folders'' = Some 2"
proof -
  have h1: "map_of [(''mcpServers'', JObj two_servers)] ''mcpServers'' = Some (JObj two_servers)"
    by simp
  have h2: "two_servers \<noteq> []"
    by (simp add: two_servers_def)
  have h3: "\<forall>sc \<in> set two_servers. \<not> isl (command_line (snd sc))"
    by (simp add: two_servers_def)
  from C7_last_registration_wins [OF h1 h2 h3, of two_backends "init ()"]
  obtain b' where run: "connect_to_servers two_backends
                          (Parsed (JObj [(''mcpServers'', JObj two_servers)])) (init ()) = (True, b')"
    and wins: "\<And>early server_name server_config late key.
            two_servers = early @ (server_name, server_config) # late
            \<and> key \<in> set (registered_keys (two_backends server_name server_config))
            \<and> (\<forall>(n, c) \<in> set late. key \<notin> set (registered_keys (two_backends n c)))
            \<Longrightarrow> (\<exists>s. connect (two_backends server_name server_config) = Inr s
                     \<and> dict_get (sessions b') key = Some s)"
    by blast
  have "\<exists>s. connect (two_backends ''second'' (JObj [(''command'', JStr ''npx'')])) = Inr s
           \<and> dict_get (sessions b') ''search'' = Some s"
    by (rule wins [of "[(''first'', JObj [(''command'', JStr ''uv''),
                                         (''args'', JArr [JStr ''run'', JStr ''a.py''])])]" _ _ "[]"])
       (simp add: two_servers_def two_backends_def registered_keys_def search_tool_def)
  then have later: "dict_get (sessions b') ''search'' = Some 2"
    by (simp add: two_backends_def)
  have disjoint: "\<forall>i < length two_servers. \<forall>j < length two_servers. i \<noteq> j \<longrightarrow>
              set (registered_keys (disjoint_backends (fst (two_servers ! i)) (snd (two_servers ! i))))
              \<inter> set (registered_keys (disjoint_backends (fst (two_servers ! j)) (snd (two_servers ! j)))) = {}"
    by (simp add: two_servers_def disjoint_backends_def registered_keys_def search_tool_def
          less_Suc_eq)
  from C7_last_registration_wins [OF h1 h2 h3, of disjoint_backends "init ()"] disjoint
  obtain b'' where run': "connect_to_servers disjoint_backends
                          (Parsed (JObj [(''mcpServers'', JObj two_servers)])) (init ()) = (True, b'')"
    and own: "\<forall>(server_name, server_config) \<in> set two_servers.
                  \<forall>key \<in> set (registered_keys (disjoint_backends server_name server_config)).
                    \<exists>s. connect (disjoint_backends server_name server_config) = Inr s
                      \<and> dict_get (sessions b'') key = Some s"
    by blast
  from own have "dict_get (sessions b'') ''search'' = Some 1
               \<and> dict_get (sessions b'') ''papers://folders'' = Some 2"
    by (simp add: two_servers_def disjoint_backends_def registered_keys_def search_tool_def)
  with run run' later show ?thesis by simp
qed

section \<open>Facts about the conversation loop\<close>

lemma for_content_log:
  assumes "final_state (for_content E a segs (b, l)) = (b', l')"
  shows "\<exists>events msgs.
           trace b' = trace b @ events \<and> messages l' = messages l @ msgs
         \<and> sessions b' = sessions b
         \<and> map (\<lambda>(s, name, inp, r). (Some s, name, inp)) (calls_of events)
             = map (\<lambda>(i, name, inp). (dict_get (sessions b) name, name, inp))
                 (take (length (calls_of events)) (tool_uses segs))
         \<and> results_of msgs = zip (map fst (tool_uses segs)) (returned (calls_of events))"
  using assms
proof (induction segs arbitrary: b l)
  case Nil
  then show ?case by simp
next
  case (Cons seg rest)
  show ?case
  proof (cases seg)
    case (Text t)
    with Cons.prems
    have "final_state (for_content E a rest
            (emit (text_out t) b, l\<lparr>store := append_at a (Text t) (store l)\<rparr>)) = (b', l')"
      by simp
    from Cons.IH [OF this] obtain events msgs where
      "trace b' = trace b @ text_out t # events" "messages l' = messages l @ msgs"
      "sessions b' = sessions b"
      "map (\<lambda>(s, name, inp, r). (Some s, name, inp)) (calls_of events)
             = map (\<lambda>(i, name, inp). (dict_get (sessions b) name, name, inp))
                 (take (length (calls_of events)) (tool_uses rest))"
      "results_of msgs = zip (map fst (tool_uses rest)) (returned (calls_of events))"
      by auto
    then show ?thesis using Text
      by (intro exI [of _ "text_out t # events"] exI [of _ msgs]) simp
  next
    case OtherSegment
    with Cons.prems Cons.IH [of b l] show ?thesis by simp
  next
    case (ToolUse i name inp)
    let ?l1 = "l\<lparr>has_tool_use := True,
                  store := append_at a (ToolUse i name inp) (store l),
                  messages := messages l @ [(Assistant, Segments a)]\<rparr>"
    show ?thesis
    proof (cases "dict_get (sessions b) name")
      case None
      with Cons.prems ToolUse have "b' = emit (tool_not_found name) b" "l' = ?l1"
        by (simp_all add: Let_def)
      then show ?thesis using ToolUse
        by (intro exI [of _ "[tool_not_found name]"] exI [of _ "[(Assistant, Segments a)]"]) simp
    next
      case (Some s)
      obtain r w where call: "call_tool E s name inp (world b) = (r, w)"
        by (cases "call_tool E s name inp (world b)")
      show ?thesis
      proof (cases r)
        case (Inl e)
        with Cons.prems ToolUse Some call
        have "b' = emit (ToolCall s name inp (Inl e)) (b\<lparr>world := w\<rparr>)" "l' = ?l1"
          by (simp_all add: Let_def)
        then show ?thesis using ToolUse Some
          by (intro exI [of _ "[ToolCall s name inp (Inl e)]"] exI [of _ "[(Assistant, Segments a)]"])
             simp
      next
        case (Inr res)
        let ?b1 = "emit (ToolCall s name inp (Inr res)) (b\<lparr>world := w\<rparr>)"
        let ?l2 = "?l1\<lparr>messages := messages ?l1 @ [(User, ToolResult i res)]\<rparr>"
        from Cons.prems ToolUse Some call Inr
        have "final_state (for_content E a rest (?b1, ?l2)) = (b', l')"
          by (simp add: Let_def)
        from Cons.IH [OF this] obtain events msgs where
          "trace b' = trace b @ ToolCall s name inp (Inr res) # events"
          "messages l' = messages l @ (Assistant, Segments a) # (User, ToolResult i res) # msgs"
          "sessions b' = sessions b"
          "map (\<lambda>(s, name, inp, r). (Some s, name, inp)) (calls_of events)
             = map (\<lambda>(i, name, inp). (dict_get (sessions b) name, name, inp))
                 (take (length (calls_of events)) (tool_uses rest))"
          "results_of msgs = zip (map fst (tool_uses rest)) (returned (calls_of events))"
          by auto
        then show ?thesis using ToolUse Some
          by (intro exI [of _ "ToolCall s name inp (Inr res) # events"]
                exI [of _ "(Assistant, Segments a) # (User, ToolResult i res) # msgs"]) simp
      qed
    qed
  qed
qed




lemma for_content_append:
  "\<forall>i n x. ToolUse i n x \<in> set pre \<longrightarrow> dict_get (sessions b) n \<noteq> None \<Longrightarrow>
   for_content E a (pre @ post) (b, l) =
     (case for_content E a pre (b, l) of Inl x \<Rightarrow> Inl x | Inr s1 \<Rightarrow> for_content E a post s1)"
proof (induction pre arbitrary: b l)
  case Nil
  then show ?case by simp
next
  case (Cons seg rest)
  show ?case
  proof (cases seg)
    case (Text t)
    with Cons.prems Cons.IH [of "emit (text_out t) b" "l\<lparr>store := append_at a (Text t) (store l)\<rparr>"]
    show ?thesis by simp
  next
    case OtherSegment
    with Cons.prems Cons.IH [of b l] show ?thesis by simp
  next
    case (ToolUse i name inp)
    then have "ToolUse i name inp \<in> set (seg # rest)" by simp
    with Cons.prems have "dict_get (sessions b) name \<noteq> None" by blast
    then obtain s where Some: "dict_get (sessions b) name = Some s"
      by auto
    obtain r w where call: "call_tool E s name inp (world b) = (r, w)"
      by (cases "call_tool E s name inp (world b)")
    show ?thesis
    proof (cases r)
      case (Inl e)
      with ToolUse Some call show ?thesis by (simp add: Let_def)
    next
      case (Inr res)
      have "\<forall>i n x. ToolUse i n x \<in> set rest \<longrightarrow>
              dict_get (sessions (emit (ToolCall s name inp (Inr res)) (b\<lparr>world := w\<rparr>))) n \<noteq> None"
        using Cons.prems by simp
      from Cons.IH [OF this] ToolUse Some call Inr show ?thesis by (simp add: Let_def)
    qed
  qed
qed

lemma results_of_read_transcript: "results_of (read_transcript st ms) = results_of ms"
proof (induction ms)
  case Nil
  then show ?case by (simp add: read_transcript_def)
next
  case (Cons m ms)
  obtain who c where "m = (who, c)" by (cases m)
  with Cons show ?case by (cases c) (simp_all add: read_transcript_def)
qed

lemma loop_body_submits:
  "\<exists>r events. trace (fst (round_state (loop_body E (b, l))))
     = trace b @ ModelCall (available_tools b) (read_transcript (store l) (messages l)) r # events"
proof -
  let ?sent = "read_transcript (store l) (messages l)"
  obtain r w where cm: "create_message E (available_tools b) ?sent (world b) = (r, w)"
    by (cases "create_message E (available_tools b) ?sent (world b)")
  show ?thesis
  proof (cases r)
    case (Inl e)
    with cm show ?thesis by (simp add: loop_body_def Let_def)
  next
    case (Inr response)
    let ?b0 = "emit (ModelCall (available_tools b) ?sent (Inr response)) (b\<lparr>world := w\<rparr>)"
    let ?l0 = "l\<lparr>store := store l @ [[]], has_tool_use := False\<rparr>"
    obtain b' l' where fin: "final_state (for_content E (length (store l)) response (?b0, ?l0)) = (b', l')"
      by (cases "final_state (for_content E (length (store l)) response (?b0, ?l0))")
    from for_content_log [OF fin] obtain events where ev: "trace b' = trace ?b0 @ events"
      by blast
    have "fst (round_state (loop_body E (b, l))) = b'"
      using cm Inr fin
      by (cases "for_content E (length (store l)) response (?b0, ?l0)")
         (auto simp: loop_body_def Let_def)
    with ev show ?thesis by simp
  qed
qed



lemma for_content_static:
  "final_state (for_content E a segs (b, l)) = (b', l') \<Longrightarrow>
   available_tools b' = available_tools b \<and> sessions b' = sessions b"
proof (induction segs arbitrary: b l)
  case Nil
  then show ?case by simp
next
  case (Cons seg rest)
  show ?case
  proof (cases seg)
    case (Text t)
    with Cons.prems Cons.IH [of "emit (text_out t) b" "l\<lparr>store := append_at a (Text t) (store l)\<rparr>"]
    show ?thesis by simp
  next
    case OtherSegment
    with Cons.prems Cons.IH [of b l] show ?thesis by simp
  next
    case (ToolUse i name inp)
    show ?thesis
    proof (cases "dict_get (sessions b) name")
      case None
      with Cons.prems ToolUse show ?thesis by (auto simp: Let_def)
    next
      case (Some s)
      obtain r w where call: "call_tool E s name inp (world b) = (r, w)"
        by (cases "call_tool E s name inp (world b)")
      show ?thesis
      proof (cases r)
        case (Inl e)
        with Cons.prems ToolUse Some call show ?thesis by (auto simp: Let_def)
      next
        case (Inr res)
        with Cons.prems ToolUse Some call
        have "final_state (for_content E a rest
                (emit (ToolCall s name inp (Inr res)) (b\<lparr>world := w\<rparr>),
                 l\<lparr>has_tool_use := True,
                   store := append_at a (ToolUse i name inp) (store l),
                   messages := messages l @ [(Assistant, Segments a)],
                   messages := (messages l @ [(Assistant, Segments a)]) @ [(User, ToolResult i res)]\<rparr>))
              = (b', l')"
          by (simp add: Let_def)
        from Cons.IH [OF this] show ?thesis by simp
      qed
    qed
  qed
qed

lemma results_of_append: "results_of (xs @ ys) = results_of xs @ results_of ys"
proof (induction xs)
  case Nil
  then show ?case by simp
next
  case (Cons m ms)
  obtain who c where "m = (who, c)" by (cases m)
  with Cons show ?case by (cases c) simp_all
qed

lemma for_content_dispatch:
  assumes "final_state (for_content E a segs (b, l)) = (b', l')"
  shows "\<exists>events msgs.
           trace b' = trace b @ events \<and> messages l' = messages l @ msgs
         \<and> map (\<lambda>(s, name, inp, r). (Some s, name, inp)) (calls_of events)
             = map (\<lambda>(i, name, inp). (dict_get (sessions b) name, name, inp))
                 (take (length (calls_of events)) (tool_uses segs))
         \<and> results_of msgs = zip (map fst (tool_uses segs)) (returned (calls_of events))
         \<and> (case for_content E a segs (b, l) of
               Inr s' \<Rightarrow>
                 length (calls_of events)
                   = length (takeWhile (\<lambda>(i, name, inp). dict_get (sessions b) name \<noteq> None)
                               (tool_uses segs))
                 \<and> length (returned (calls_of events)) = length (calls_of events)
             | Inl (e, s') \<Rightarrow>
                 calls_of events \<noteq> []
                 \<and> length (calls_of events)
                   \<le> length (takeWhile (\<lambda>(i, name, inp). dict_get (sessions b) name \<noteq> None)
                               (tool_uses segs))
                 \<and> snd (snd (snd (last (calls_of events)))) = Inl e
                 \<and> length (returned (calls_of events)) = length (calls_of events) - 1)"
  using assms
proof (induction segs arbitrary: b l)
  case Nil
  then show ?case by simp
next
  case (Cons seg rest)
  let ?calls = "\<lambda>S segs events.
       map (\<lambda>(s, name, inp, r). (Some s, name, inp)) (calls_of events)
         = map (\<lambda>(i, name, inp). (dict_get S name, name, inp))
             (take (length (calls_of events)) (tool_uses segs))"
  let ?stop = "\<lambda>S segs out events.
       (case out of
          Inr s' \<Rightarrow>
            length (calls_of events)
              = length (takeWhile (\<lambda>(i, name, inp). dict_get S name \<noteq> None) (tool_uses segs))
            \<and> length (returned (calls_of events)) = length (calls_of events)
        | Inl (e, s') \<Rightarrow>
            calls_of events \<noteq> []
            \<and> length (calls_of events)
              \<le> length (takeWhile (\<lambda>(i, name, inp). dict_get S name \<noteq> None) (tool_uses segs))
            \<and> snd (snd (snd (last (calls_of events)))) = Inl e
            \<and> length (returned (calls_of events)) = length (calls_of events) - 1)"
  show ?case
  proof (cases seg)
    case (Text t)
    let ?b1 = "emit (text_out t) b"
    let ?l1 = "l\<lparr>store := append_at a (Text t) (store l)\<rparr>"
    have same: "for_content E a (seg # rest) (b, l) = for_content E a rest (?b1, ?l1)"
      using Text by simp
    with Cons.prems have "final_state (for_content E a rest (?b1, ?l1)) = (b', l')"
      by simp
    from Cons.IH [OF this] obtain events msgs where ih:
      "trace b' = trace ?b1 @ events" "messages l' = messages ?l1 @ msgs"
      "?calls (sessions ?b1) rest events"
      "results_of msgs = zip (map fst (tool_uses rest)) (returned (calls_of events))"
      "?stop (sessions ?b1) rest (for_content E a rest (?b1, ?l1)) events"
      by blast
    have f1: "trace b' = trace b @ (text_out t # events)"
      using ih(1) by simp
    have f2: "messages l' = messages l @ msgs"
      using ih(2) by simp
    have f3: "?calls (sessions b) (seg # rest) (text_out t # events)"
      using ih(3) Text by simp
    have f4: "results_of msgs = zip (map fst (tool_uses (seg # rest)))
                                   (returned (calls_of (text_out t # events)))"
      using ih(4) Text by simp
    have f5: "?stop (sessions b) (seg # rest) (for_content E a rest (?b1, ?l1)) (text_out t # events)"
      using ih(5) Text by (cases "for_content E a rest (?b1, ?l1)") auto
    show ?thesis
      unfolding same using f1 f2 f3 f4 f5 by blast
  next
    case OtherSegment
    have same: "for_content E a (seg # rest) (b, l) = for_content E a rest (b, l)"
      using OtherSegment by simp
    with Cons.prems have "final_state (for_content E a rest (b, l)) = (b', l')"
      by simp
    from Cons.IH [OF this] obtain events msgs where ih:
      "trace b' = trace b @ events" "messages l' = messages l @ msgs"
      "?calls (sessions b) rest events"
      "results_of msgs = zip (map fst (tool_uses rest)) (returned (calls_of events))"
      "?stop (sessions b) rest (for_content E a rest (b, l)) events"
      by blast
    have f3: "?calls (sessions b) (seg # rest) events"
      using ih(3) OtherSegment by simp
    have f4: "results_of msgs = zip (map fst (tool_uses (seg # rest))) (returned (calls_of events))"
      using ih(4) OtherSegment by simp
    have f5: "?stop (sessions b) (seg # rest) (for_content E a rest (b, l)) events"
      using ih(5) OtherSegment by (cases "for_content E a rest (b, l)") auto
    show ?thesis
      unfolding same using ih(1,2) f3 f4 f5 by blast
  next
    case (ToolUse i name inp)
    let ?l1 = "l\<lparr>has_tool_use := True,
                  store := append_at a (ToolUse i name inp) (store l),
                  messages := messages l @ [(Assistant, Segments a)]\<rparr>"
    show ?thesis
    proof (cases "dict_get (sessions b) name")
      case None
      have out: "for_content E a (seg # rest) (b, l) = Inr (emit (tool_not_found name) b, ?l1)"
        using ToolUse None by (simp add: Let_def)
      with Cons.prems have eq: "b' = emit (tool_not_found name) b" "l' = ?l1"
        by simp_all
      have f1: "trace b' = trace b @ [tool_not_found name]"
        using eq by simp
      have f2: "messages l' = messages l @ [(Assistant, Segments a)]"
        using eq by simp
      have f3: "?calls (sessions b) (seg # rest) [tool_not_found name]"
        by simp
      have f4: "results_of [(Assistant, Segments a)]
                  = zip (map fst (tool_uses (seg # rest))) (returned (calls_of [tool_not_found name]))"
        by simp
      have f5: "?stop (sessions b) (seg # rest)
                  (Inr (emit (tool_not_found name) b, ?l1) :: exn \<times> 'a bot \<times> locals + 'a bot \<times> locals)
                  [tool_not_found name]"
        using ToolUse None by simp
      show ?thesis
        unfolding out using f1 f2 f3 f4 f5 by blast
    next
      case (Some s)
      obtain r w where call: "call_tool E s name inp (world b) = (r, w)"
        by (cases "call_tool E s name inp (world b)")
      show ?thesis
      proof (cases r)
        case (Inl e)
        let ?b1 = "emit (ToolCall s name inp (Inl e)) (b\<lparr>world := w\<rparr>)"
        have out: "for_content E a (seg # rest) (b, l) = Inl (e, ?b1, ?l1)"
          using ToolUse Some call Inl by (simp add: Let_def)
        with Cons.prems have eq: "b' = ?b1" "l' = ?l1"
          by simp_all
        have f1: "trace b' = trace b @ [ToolCall s name inp (Inl e)]"
          using eq by simp
        have f2: "messages l' = messages l @ [(Assistant, Segments a)]"
          using eq by simp
        have f3: "?calls (sessions b) (seg # rest) [ToolCall s name inp (Inl e)]"
          using ToolUse Some by simp
        have f4: "results_of [(Assistant, Segments a)]
                    = zip (map fst (tool_uses (seg # rest)))
                          (returned (calls_of [ToolCall s name inp (Inl e)]))"
          by simp
        have f5: "?stop (sessions b) (seg # rest)
                    (Inl (e, ?b1, ?l1) :: exn \<times> 'a bot \<times> locals + 'a bot \<times> locals)
                    [ToolCall s name inp (Inl e)]"
          using ToolUse Some by simp
        show ?thesis
          unfolding out using f1 f2 f3 f4 f5 by blast
      next
        case (Inr res)
        let ?b1 = "emit (ToolCall s name inp (Inr res)) (b\<lparr>world := w\<rparr>)"
        let ?l2 = "?l1\<lparr>messages := messages ?l1 @ [(User, ToolResult i res)]\<rparr>"
        have same: "for_content E a (seg # rest) (b, l) = for_content E a rest (?b1, ?l2)"
          using ToolUse Some call Inr by (simp add: Let_def)
        with Cons.prems have "final_state (for_content E a rest (?b1, ?l2)) = (b', l')"
          by simp
        from Cons.IH [OF this] obtain events msgs where ih:
          "trace b' = trace ?b1 @ events" "messages l' = messages ?l2 @ msgs"
          "?calls (sessions ?b1) rest events"
          "results_of msgs = zip (map fst (tool_uses rest)) (returned (calls_of events))"
          "?stop (sessions ?b1) rest (for_content E a rest (?b1, ?l2)) events"
          by blast
        have f1: "trace b' = trace b @ (ToolCall s name inp (Inr res) # events)"
          using ih(1) by simp
        have f2: "messages l' = messages l @ ((Assistant, Segments a) # (User, ToolResult i res) # msgs)"
          using ih(2) by simp
        have f3: "?calls (sessions b) (seg # rest) (ToolCall s name inp (Inr res) # events)"
          using ih(3) ToolUse Some by simp
        have f4: "results_of ((Assistant, Segments a) # (User, ToolResult i res) # msgs)
                    = zip (map fst (tool_uses (seg # rest)))
                          (returned (calls_of (ToolCall s name inp (Inr res) # events)))"
          using ih(4) ToolUse by simp
        have f5: "?stop (sessions b) (seg # rest) (for_content E a rest (?b1, ?l2))
                      (ToolCall s name inp (Inr res) # events)"
          using ih(5) ToolUse Some
          by (cases "for_content E a rest (?b1, ?l2)") (auto simp: Suc_diff_le Suc_leI)
        show ?thesis
          unfolding same using f1 f2 f3 f4 f5 by blast
      qed
    qed
  qed
qed

lemma set_tool_uses: "((i, name, inp) \<in> set (tool_uses segs)) = (ToolUse i name inp \<in> set segs)"
proof (induction segs)
  case Nil
  then show ?case by simp
next
  case (Cons seg rest)
  then show ?case by (cases seg) auto
qed

section \<open>Claims about the Conversation Driver\<close>

text \<open>
  C2 does not hold of the code: the assistant message is appended inside the loop over the
  segments, once for every tool-invocation-request that is reached, and all of these
  messages share the one list \<open>assistant_content\<close>. For a response with two requests that
  both resolve, the transcript submitted next holds two assistant messages, each showing
  both requests, instead of one.
\<close>

theorem C2_one_assistant_message_per_request:
  "map_option (\<lambda>out. read_transcript (store (snd (outcome_state out))) (messages (snd (outcome_state out))))
     (while_loop (Suc (Suc 0)) (scripted two_request_script) (demo_bot, query_locals ''q''))
   = Some [(User, QueryText ''q''),
           (Assistant, Segments [ToolUse ''id1'' ''search'' JNull, ToolUse ''id2'' ''search'' JNull]),
           (User, ToolResult ''id1'' (JStr ''search'')),
           (Assistant, Segments [ToolUse ''id1'' ''search'' JNull, ToolUse ''id2'' ''search'' JNull]),
           (User, ToolResult ''id2'' (JStr ''search''))]"
  by (simp add: scripted_def two_request_script_def demo_bot_def init_def query_locals_def
        dict_get_def emit_def read_transcript_def append_at_def Let_def loop_body_def)

text \<open>
  C3: suppose the response is \<open>pre @ ToolUse i name inp # post\<close>, every request in \<open>pre\<close>
  resolves and has been dispatched (the loop over \<open>pre\<close> ended normally in \<open>(b1, l1)\<close>),
  and \<open>name\<close> is not registered. Then the round reports "not found" for \<open>name\<close> as its last
  event and does nothing for \<open>post\<close>; the transcript gains the assistant message and no
  tool result beyond those gathered for \<open>pre\<close>, which are one for every request of \<open>pre\<close>,
  in order, each with the id of its request and what its call returned; the round ends in
  \<open>Again\<close>, so the query goes on instead of returning or raising. Whenever the loop is
  given a second round, that round calls the model service with exactly this transcript,
  tool results included, from the world the first round left, and what the loop yields is
  what that call and its dispatch yield.
\<close>

theorem C3_unresolved_tool_skips_rest:
  assumes response:
        "create_message E (available_tools b) (read_transcript (store l) (messages l)) (world b)
           = (Inr (pre @ ToolUse i name inp # post), w)"
      and earlier: "\<forall>i' n' x'. ToolUse i' n' x' \<in> set pre \<longrightarrow> dict_get (sessions b) n' \<noteq> None"
      and reached:
        "for_content E (length (store l)) pre
           (emit (ModelCall (available_tools b) (read_transcript (store l) (messages l))
                    (Inr (pre @ ToolUse i name inp # post))) (b\<lparr>world := w\<rparr>),
            l\<lparr>store := store l @ [[]], has_tool_use := False\<rparr>) = Inr (b1, l1)"
      and unresolved: "dict_get (sessions b) name = None"
  shows "\<exists>l2. loop_body E (b, l) = Again (emit (tool_not_found name) b1, l2)
          \<and> messages l2 = messages l1 @ [(Assistant, Segments (length (store l)))]
          \<and> (\<forall>n. while_loop (Suc n) E (b, l) = while_loop n E (emit (tool_not_found name) b1, l2))
          \<and> (\<exists>r events.
                trace (fst (round_state (loop_body E (emit (tool_not_found name) b1, l2))))
                  = trace b1 @ tool_not_found name
                      # ModelCall (available_tools b) (read_transcript (store l2) (messages l2)) r
                      # events)
          \<and> results_of (read_transcript (store l2) (messages l2)) = results_of (messages l1)
          \<and> (\<forall>n. while_loop (Suc (Suc n)) E (b, l) =
                (case create_message E (available_tools b)
                        (read_transcript (store l2) (messages l2)) (world b1) of
                   (Inl e, w') \<Rightarrow>
                     Some (Raises e
                       (emit (ModelCall (available_tools b)
                                (read_transcript (store l2) (messages l2)) (Inl e))
                          ((emit (tool_not_found name) b1)\<lparr>world := w'\<rparr>), l2))
                 | (Inr response', w') \<Rightarrow>
                     (case for_content E (length (store l2)) response'
                             (emit (ModelCall (available_tools b)
                                      (read_transcript (store l2) (messages l2)) (Inr response'))
                                ((emit (tool_not_found name) b1)\<lparr>world := w'\<rparr>),
                              l2\<lparr>store := store l2 @ [[]], has_tool_use := False\<rparr>) of
                        Inl (e, s') \<Rightarrow> Some (Raises e s')
                      | Inr (b', l') \<Rightarrow>
                          if \<not> has_tool_use l' then Some (Returned (b', l'))
                          else while_loop n E (b', l'))))
          \<and> (\<exists>events msgs.
                trace b1 = trace b @ ModelCall (available_tools b)
                                       (read_transcript (store l) (messages l))
                                       (Inr (pre @ ToolUse i name inp # post)) # events
              \<and> messages l1 = messages l @ msgs
              \<and> map (\<lambda>(s, name, inp, r). (Some s, name, inp)) (calls_of events)
                  = map (\<lambda>(i, name, inp). (dict_get (sessions b) name, name, inp)) (tool_uses pre)
              \<and> length (returned (calls_of events)) = length (tool_uses pre)
              \<and> results_of (read_transcript (store l2) (messages l2))
                  = results_of (messages l) @ zip (map fst (tool_uses pre)) (returned (calls_of events)))"
proof -
  let ?a = "length (store l)"
  let ?sent = "read_transcript (store l) (messages l)"
  let ?b0 = "emit (ModelCall (available_tools b) ?sent (Inr (pre @ ToolUse i name inp # post)))
               (b\<lparr>world := w\<rparr>)"
  let ?l0 = "l\<lparr>store := store l @ [[]], has_tool_use := False\<rparr>"
  let ?l2 = "l1\<lparr>has_tool_use := True,
                 store := append_at ?a (ToolUse i name inp) (store l1),
                 messages := messages l1 @ [(Assistant, Segments ?a)]\<rparr>"
  let ?b2 = "emit (tool_not_found name) b1"
  let ?T2 = "read_transcript (store ?l2) (messages ?l2)"
  from reached have fin: "final_state (for_content E ?a pre (?b0, ?l0)) = (b1, l1)"
    by simp
  from for_content_static [OF fin]
  have static: "available_tools b1 = available_tools b" "sessions b1 = sessions b"
    by simp_all
  have "\<forall>i' n' x'. ToolUse i' n' x' \<in> set pre \<longrightarrow> dict_get (sessions ?b0) n' \<noteq> None"
    using earlier by simp
  from for_content_append [OF this, of E ?a "ToolUse i name inp # post" ?l0] reached
  have "for_content E ?a (pre @ ToolUse i name inp # post) (?b0, ?l0)
          = for_content E ?a (ToolUse i name inp # post) (b1, l1)"
    by simp
  also have "\<dots> = Inr (?b2, ?l2)"
    using unresolved static by (simp add: Let_def)
  finally have body: "loop_body E (b, l) = Again (?b2, ?l2)"
    using response by (simp add: loop_body_def Let_def)
  then have loop: "\<forall>n. while_loop (Suc n) E (b, l) = while_loop n E (?b2, ?l2)"
    by simp
  from loop_body_submits [of E ?b2 ?l2] static
  have next_round: "\<exists>r events.
          trace (fst (round_state (loop_body E (?b2, ?l2))))
            = trace b1 @ tool_not_found name
                # ModelCall (available_tools b) ?T2 r
                # events"
    by simp
  have results: "results_of ?T2 = results_of (messages l1)"
    by (simp add: results_of_read_transcript results_of_append)
  have second: "while_loop (Suc (Suc n)) E (b, l) =
                (case create_message E (available_tools b) ?T2 (world b1) of
                   (Inl e, w') \<Rightarrow>
                     Some (Raises e
                       (emit (ModelCall (available_tools b) ?T2 (Inl e)) (?b2\<lparr>world := w'\<rparr>), ?l2))
                 | (Inr response', w') \<Rightarrow>
                     (case for_content E (length (store ?l2)) response'
                             (emit (ModelCall (available_tools b) ?T2 (Inr response'))
                                (?b2\<lparr>world := w'\<rparr>),
                              ?l2\<lparr>store := store ?l2 @ [[]], has_tool_use := False\<rparr>) of
                        Inl (e, s') \<Rightarrow> Some (Raises e s')
                      | Inr (b', l') \<Rightarrow>
                          if \<not> has_tool_use l' then Some (Returned (b', l'))
                          else while_loop n E (b', l')))" for n
  proof -
    have "while_loop (Suc (Suc n)) E (b, l) = while_loop (Suc n) E (?b2, ?l2)"
      using loop by blast
    also have "\<dots> = (case loop_body E (?b2, ?l2) of
                         Again s' \<Rightarrow> while_loop n E s'
                       | Finished s' \<Rightarrow> Some (Returned s')
                       | Raised e s' \<Rightarrow> Some (Raises e s'))"
      by simp
    also have "\<dots> = (case create_message E (available_tools b) ?T2 (world b1) of
                   (Inl e, w') \<Rightarrow>
                     Some (Raises e
                       (emit (ModelCall (available_tools b) ?T2 (Inl e)) (?b2\<lparr>world := w'\<rparr>), ?l2))
                 | (Inr response', w') \<Rightarrow>
                     (case for_content E (length (store ?l2)) response'
                             (emit (ModelCall (available_tools b) ?T2 (Inr response'))
                                (?b2\<lparr>world := w'\<rparr>),
                              ?l2\<lparr>store := store ?l2 @ [[]], has_tool_use := False\<rparr>) of
                        Inl (e, s') \<Rightarrow> Some (Raises e s')
                      | Inr (b', l') \<Rightarrow>
                          if \<not> has_tool_use l' then Some (Returned (b', l'))
                          else while_loop n E (b', l')))"
      using static by (simp add: loop_body_def Let_def split: prod.splits sum.splits)
    finally show ?thesis .
  qed
  have resolves: "takeWhile (\<lambda>(i, name, inp). dict_get (sessions ?b0) name \<noteq> None) (tool_uses pre)
                    = tool_uses pre"
  proof -
    have "dict_get (sessions ?b0) n' \<noteq> None" if "(i', n', x') \<in> set (tool_uses pre)" for i' n' x'
    proof -
      from that have "ToolUse i' n' x' \<in> set pre" by (simp add: set_tool_uses)
      with earlier have "dict_get (sessions b) n' \<noteq> None" by blast
      then show ?thesis by simp
    qed
    then show ?thesis
      by (simp add: takeWhile_eq_all_conv split_beta) (metis prod.collapse)
  qed
  from for_content_dispatch [OF fin] obtain events msgs where
        t: "trace b1 = trace ?b0 @ events"
    and m: "messages l1 = messages ?l0 @ msgs"
    and c: "map (\<lambda>(s, name, inp, r). (Some s, name, inp)) (calls_of events)
             = map (\<lambda>(i, name, inp). (dict_get (sessions ?b0) name, name, inp))
                 (take (length (calls_of events)) (tool_uses pre))"
    and r: "results_of msgs = zip (map fst (tool_uses pre)) (returned (calls_of events))"
    and st: "case for_content E ?a pre (?b0, ?l0) of
               Inr s' \<Rightarrow>
                 length (calls_of events)
                   = length (takeWhile (\<lambda>(i, name, inp). dict_get (sessions ?b0) name \<noteq> None)
                               (tool_uses pre))
                 \<and> length (returned (calls_of events)) = length (calls_of events)
             | Inl (e, s') \<Rightarrow>
                 calls_of events \<noteq> []
                 \<and> length (calls_of events)
                   \<le> length (takeWhile (\<lambda>(i, name, inp). dict_get (sessions ?b0) name \<noteq> None)
                               (tool_uses pre))
                 \<and> snd (snd (snd (last (calls_of events)))) = Inl e
                 \<and> length (returned (calls_of events)) = length (calls_of events) - 1"
    by blast
  from st have "length (calls_of events)
                   = length (takeWhile (\<lambda>(i, name, inp). dict_get (sessions ?b0) name \<noteq> None)
                               (tool_uses pre))
                 \<and> length (returned (calls_of events)) = length (calls_of events)"
    unfolding reached by (simp only: sum.case)
  then have cnt: "length (calls_of events) = length (tool_uses pre)"
    and ret: "length (returned (calls_of events)) = length (tool_uses pre)"
    unfolding resolves by simp_all
  have g1: "trace b1 = trace b @ ModelCall (available_tools b) ?sent
                                     (Inr (pre @ ToolUse i name inp # post)) # events"
    using t by simp
  have g2: "messages l1 = messages l @ msgs"
    using m by simp
  have g3: "map (\<lambda>(s, name, inp, r). (Some s, name, inp)) (calls_of events)
              = map (\<lambda>(i, name, inp). (dict_get (sessions b) name, name, inp)) (tool_uses pre)"
    using c cnt by simp
  have g5: "results_of ?T2
              = results_of (messages l) @ zip (map fst (tool_uses pre)) (returned (calls_of events))"
    using results g2 r by (simp add: results_of_append)
  have gathered: "\<exists>events msgs.
                trace b1 = trace b @ ModelCall (available_tools b) ?sent
                                       (Inr (pre @ ToolUse i name inp # post)) # events
              \<and> messages l1 = messages l @ msgs
              \<and> map (\<lambda>(s, name, inp, r). (Some s, name, inp)) (calls_of events)
                  = map (\<lambda>(i, name, inp). (dict_get (sessions b) name, name, inp)) (tool_uses pre)
              \<and> length (returned (calls_of events)) = length (tool_uses pre)
              \<and> results_of ?T2
                  = results_of (messages l) @ zip (map fst (tool_uses pre)) (returned (calls_of events))"
    using g1 g2 g3 ret g5 by blast
  have msgs2: "messages ?l2 = messages l1 @ [(Assistant, Segments ?a)]"
    by simp
  from body msgs2 loop next_round results second gathered show ?thesis
    by (intro exI [of _ ?l2] conjI allI) blast+
qed

theorem C3_unresolved_tool_skips_rest_witness:
  "(\<exists>s. loop_body (scripted missing_tool_script) (demo_bot, query_locals ''q'') = Again s
      \<and> last (trace (fst s)) = tool_not_found ''missing''
      \<and> results_of (messages (snd s)) = [(''id1'', JStr ''search'')])
   \<and> map_option (\<lambda>out. trace (fst (outcome_state out)))
        (while_loop (Suc (Suc 0)) (scripted missing_tool_script) (demo_bot, query_locals ''q''))
     = Some [ModelCall [] [(User, QueryText ''q'')]
               (Inr [ToolUse ''id1'' ''search'' JNull, ToolUse ''id2'' ''missing'' JNull,
                     ToolUse ''id3'' ''search'' JNull]),
             ToolCall 1 ''search'' JNull (Inr (JStr ''search'')),
             tool_not_found ''missing'',
             ModelCall []
               [(User, QueryText ''q''),
                (Assistant, Segments [ToolUse ''id1'' ''search'' JNull,
                                      ToolUse ''id2'' ''missing'' JNull]),
                (User, ToolResult ''id1'' (JStr ''search'')),
                (Assistant, Segments [ToolUse ''id1'' ''search'' JNull,
                                      ToolUse ''id2'' ''missing'' JNull])]
               (Inr [Text ''done'']),
             text_out ''done'']"
proof -
  let ?E = "scripted missing_tool_script"
  let ?resp = "[ToolUse ''id1'' ''search'' JNull] @ ToolUse ''id2'' ''missing'' JNull
                 # [ToolUse ''id3'' ''search'' JNull]"
  let ?b1 = "demo_bot\<lparr>world := 1,
               trace := [ModelCall [] [(User, QueryText ''q'')] (Inr ?resp),
                         ToolCall 1 ''search'' JNull (Inr (JStr ''search''))]\<rparr>"
  let ?l1 = "\<lparr>messages = [(User, QueryText ''q''), (Assistant, Segments 0),
                           (User, ToolResult ''id1'' (JStr ''search''))],
              store = [[ToolUse ''id1'' ''search'' JNull]], has_tool_use = True\<rparr>"
  let ?l2 = "\<lparr>messages = [(User, QueryText ''q''), (Assistant, Segments 0),
                           (User, ToolResult ''id1'' (JStr ''search'')), (Assistant, Segments 0)],
              store = [[ToolUse ''id1'' ''search'' JNull, ToolUse ''id2'' ''missing'' JNull]],
              has_tool_use = True\<rparr>"
  have h1: "create_message ?E (available_tools demo_bot)
              (read_transcript (store (query_locals ''q'')) (messages (query_locals ''q'')))
              (world demo_bot) = (Inr ?resp, 1)"
    by (simp add: scripted_def missing_tool_script_def demo_bot_def init_def)
  have h2: "\<forall>i' n' x'. ToolUse i' n' x' \<in> set [ToolUse ''id1'' ''search'' JNull]
              \<longrightarrow> dict_get (sessions demo_bot) n' \<noteq> None"
    by (simp add: demo_bot_def dict_get_def)
  have h3: "for_content ?E (length (store (query_locals ''q''))) [ToolUse ''id1'' ''search'' JNull]
              (emit (ModelCall (available_tools demo_bot)
                       (read_transcript (store (query_locals ''q'')) (messages (query_locals ''q'')))
                       (Inr ?resp)) (demo_bot\<lparr>world := 1\<rparr>),
               (query_locals ''q'')\<lparr>store := store (query_locals ''q'') @ [[]], has_tool_use := False\<rparr>)
            = Inr (?b1, ?l1)"
    by (simp add: scripted_def demo_bot_def init_def query_locals_def dict_get_def emit_def
          read_transcript_def append_at_def Let_def)
  have h4: "dict_get (sessions demo_bot) ''missing'' = None"
    by (simp add: demo_bot_def dict_get_def)
  from C3_unresolved_tool_skips_rest [OF h1 h2 h3 h4]
  obtain l2 where body: "loop_body ?E (demo_bot, query_locals ''q'')
                           = Again (emit (tool_not_found ''missing'') ?b1, l2)"
    and msgs: "messages l2 = messages ?l1 @ [(Assistant, Segments (length (store (query_locals ''q''))))]"
    and second: "\<forall>n. while_loop (Suc (Suc n)) ?E (demo_bot, query_locals ''q'') =
                (case create_message ?E (available_tools demo_bot)
                        (read_transcript (store l2) (messages l2)) (world ?b1) of
                   (Inl e, w') \<Rightarrow>
                     Some (Raises e
                       (emit (ModelCall (available_tools demo_bot)
                                (read_transcript (store l2) (messages l2)) (Inl e))
                          ((emit (tool_not_found ''missing'') ?b1)\<lparr>world := w'\<rparr>), l2))
                 | (Inr response', w') \<Rightarrow>
                     (case for_content ?E (length (store l2)) response'
                             (emit (ModelCall (available_tools demo_bot)
                                      (read_transcript (store l2) (messages l2)) (Inr response'))
                                ((emit (tool_not_found ''missing'') ?b1)\<lparr>world := w'\<rparr>),
                              l2\<lparr>store := store l2 @ [[]], has_tool_use := False\<rparr>) of
                        Inl (e, s') \<Rightarrow> Some (Raises e s')
                      | Inr (b', l') \<Rightarrow>
                          if \<not> has_tool_use l' then Some (Returned (b', l'))
                          else while_loop n ?E (b', l')))"
    by blast
  from body msgs have first: "\<exists>s. loop_body ?E (demo_bot, query_locals ''q'') = Again s
      \<and> last (trace (fst s)) = tool_not_found ''missing''
      \<and> results_of (messages (snd s)) = [(''id1'', JStr ''search'')]"
    by simp
  have "loop_body ?E (demo_bot, query_locals ''q'') = Again (emit (tool_not_found ''missing'') ?b1, ?l2)"
    by (simp add: scripted_def missing_tool_script_def demo_bot_def init_def query_locals_def
          dict_get_def emit_def read_transcript_def append_at_def Let_def loop_body_def)
  with body have l2: "l2 = ?l2"
    by simp
  from second have "while_loop (Suc (Suc 0)) ?E (demo_bot, query_locals ''q'') =
                (case create_message ?E (available_tools demo_bot)
                        (read_transcript (store l2) (messages l2)) (world ?b1) of
                   (Inl e, w') \<Rightarrow>
                     Some (Raises e
                       (emit (ModelCall (available_tools demo_bot)
                                (read_transcript (store l2) (messages l2)) (Inl e))
                          ((emit (tool_not_found ''missing'') ?b1)\<lparr>world := w'\<rparr>), l2))
                 | (Inr response', w') \<Rightarrow>
                     (case for_content ?E (length (store l2)) response'
                             (emit (ModelCall (available_tools demo_bot)
                                      (read_transcript (store l2) (messages l2)) (Inr response'))
                                ((emit (tool_not_found ''missing'') ?b1)\<lparr>world := w'\<rparr>),
                              l2\<lparr>store := store l2 @ [[]], has_tool_use := False\<rparr>) of
                        Inl (e, s') \<Rightarrow> Some (Raises e s')
                      | Inr (b', l') \<Rightarrow>
                          if \<not> has_tool_use l' then Some (Returned (b', l'))
                          else while_loop 0 ?E (b', l')))"
    by (rule spec)
  then have resubmitted: "map_option (\<lambda>out. trace (fst (outcome_state out)))
        (while_loop (Suc (Suc 0)) ?E (demo_bot, query_locals ''q''))
     = Some [ModelCall [] [(User, QueryText ''q'')]
               (Inr [ToolUse ''id1'' ''search'' JNull, ToolUse ''id2'' ''missing'' JNull,
                     ToolUse ''id3'' ''search'' JNull]),
             ToolCall 1 ''search'' JNull (Inr (JStr ''search'')),
             tool_not_found ''missing'',
             ModelCall []
               [(User, QueryText ''q''),
                (Assistant, Segments [ToolUse ''id1'' ''search'' JNull,
                                      ToolUse ''id2'' ''missing'' JNull]),
                (User, ToolResult ''id1'' (JStr ''search'')),
                (Assistant, Segments [ToolUse ''id1'' ''search'' JNull,
                                      ToolUse ''id2'' ''missing'' JNull])]
               (Inr [Text ''done'']),
             text_out ''done'']"
    unfolding l2
    by (simp add: scripted_def missing_tool_script_def demo_bot_def init_def
          emit_def read_transcript_def append_at_def Let_def)
  from first resubmitted show ?thesis by blast
qed




text \<open>
  C5: within one response, the tool calls made are, in order, the first requests of the
  response, each sent to the connection its name resolves to, and the tool-result
  messages appended are, in order, one for each call that returned, carrying the id of the
  request at the same position and the content that call returned. Where the calls end is
  fixed: when the loop ends normally, every request before the first one whose name does
  not resolve has been called and has returned; when it ends by an exception, the last
  call is the one that raised it and every earlier call returned. Each call starts from
  the world the previous one left.
\<close>

theorem C5_dispatch_in_order:
  assumes "final_state (for_content E a response (b, l)) = (b', l')"
  shows "\<exists>events msgs.
           trace b' = trace b @ events \<and> messages l' = messages l @ msgs
         \<and> map (\<lambda>(s, name, inp, r). (Some s, name, inp)) (calls_of events)
             = map (\<lambda>(i, name, inp). (dict_get (sessions b) name, name, inp))
                 (take (length (calls_of events)) (tool_uses response))
         \<and> results_of msgs = zip (map fst (tool_uses response)) (returned (calls_of events))
         \<and> (case for_content E a response (b, l) of
               Inr s' \<Rightarrow>
                 length (calls_of events)
                   = length (takeWhile (\<lambda>(i, name, inp). dict_get (sessions b) name \<noteq> None)
                               (tool_uses response))
                 \<and> length (returned (calls_of events)) = length (calls_of events)
             | Inl (e, s') \<Rightarrow>
                 calls_of events \<noteq> []
                 \<and> length (calls_of events)
                   \<le> length (takeWhile (\<lambda>(i, name, inp). dict_get (sessions b) name \<noteq> None)
                               (tool_uses response))
                 \<and> snd (snd (snd (last (calls_of events)))) = Inl e
                 \<and> length (returned (calls_of events)) = length (calls_of events) - 1)"
  by (rule for_content_dispatch [OF assms])

theorem C5_dispatch_in_order_witness:
  "\<exists>events msgs.
     trace (fst (final_state (for_content (scripted []) 0 two_requests
                    (demo_bot, (query_locals ''q'')\<lparr>store := [[]]\<rparr>))))
       = trace demo_bot @ events
   \<and> messages (snd (final_state (for_content (scripted []) 0 two_requests
                    (demo_bot, (query_locals ''q'')\<lparr>store := [[]]\<rparr>))))
       = messages ((query_locals ''q'')\<lparr>store := [[]]\<rparr>) @ msgs
   \<and> map (\<lambda>(s, name, inp, r). (Some s, name, inp)) (calls_of events)
       = [(Some 1, ''search'', JNull), (Some 1, ''search'', JStr ''x'')]
   \<and> length (returned (calls_of events)) = 2
   \<and> results_of msgs = zip [''id1'', ''id2''] (returned (calls_of events))"
proof -
  let ?X = "for_content (scripted []) 0 two_requests (demo_bot, (query_locals ''q'')\<lparr>store := [[]]\<rparr>)"
  let ?P = "\<lambda>(i :: string, name, inp :: json). dict_get (sessions demo_bot) name \<noteq> None"
  have run: "final_state ?X = (fst (final_state ?X), snd (final_state ?X))"
    by simp
  have normal: "\<exists>s'. ?X = Inr s'"
    by (simp add: scripted_def two_requests_def demo_bot_def init_def query_locals_def
          dict_get_def Let_def)
  have reqs: "tool_uses two_requests = [(''id1'', ''search'', JNull), (''id2'', ''search'', JStr ''x'')]"
    by (simp add: two_requests_def)
  from C5_dispatch_in_order [OF run] obtain events msgs where
        t: "trace (fst (final_state ?X)) = trace demo_bot @ events"
    and m: "messages (snd (final_state ?X)) = messages ((query_locals ''q'')\<lparr>store := [[]]\<rparr>) @ msgs"
    and c: "map (\<lambda>(s, name, inp, r). (Some s, name, inp)) (calls_of events)
             = map (\<lambda>(i, name, inp). (dict_get (sessions demo_bot) name, name, inp))
                 (take (length (calls_of events)) (tool_uses two_requests))"
    and r: "results_of msgs = zip (map fst (tool_uses two_requests)) (returned (calls_of events))"
    and st: "case ?X of
               Inr s' \<Rightarrow>
                 length (calls_of events) = length (takeWhile ?P (tool_uses two_requests))
                 \<and> length (returned (calls_of events)) = length (calls_of events)
             | Inl (e, s') \<Rightarrow>
                 calls_of events \<noteq> []
                 \<and> length (calls_of events) \<le> length (takeWhile ?P (tool_uses two_requests))
                 \<and> snd (snd (snd (last (calls_of events)))) = Inl e
                 \<and> length (returned (calls_of events)) = length (calls_of events) - 1"
    by blast
  from normal obtain s' where "?X = Inr s'" by blast
  with st have cnt: "length (calls_of events) = length (takeWhile ?P (tool_uses two_requests))"
    and len: "length (returned (calls_of events)) = length (calls_of events)"
    by simp_all
  have n: "length (calls_of events) = 2"
    unfolding cnt by (simp add: two_requests_def demo_bot_def dict_get_def)
  have c': "map (\<lambda>(s, name, inp, r). (Some s, name, inp)) (calls_of events)
       = [(Some 1, ''search'', JNull), (Some 1, ''search'', JStr ''x'')]"
    using c by (simp add: n reqs demo_bot_def dict_get_def)
  have r': "results_of msgs = zip [''id1'', ''id2''] (returned (calls_of events))"
    using r by (simp add: reqs)
  from t m c' len n r' show ?thesis by auto
qed

text \<open>
  C9: all three registration loops write the one dictionary \<open>sessions\<close>. If \<open>name\<close> is
  registered and a backend that connects with \<open>s2\<close> lists a prompt called \<open>name\<close> or a
  resource whose URI is \<open>name\<close>, then after \<open>connect_to_server\<close> the entry for \<open>name\<close> is
  \<open>s2\<close>, and a tool-invocation-request for \<open>name\<close> is sent to \<open>s2\<close>.
\<close>

theorem C9_shared_mapping_collides:
  assumes tool: "dict_get (sessions b) name = Some s1"
      and connected: "connect be = Inr s2"
      and offered: "name \<in> mp_name ` set (listed (prompts be)) \<or> name \<in> set (listed (resources be))"
  shows "dict_get (sessions (snd (connect_to_server server_name be b))) name = Some s2
       \<and> (\<forall>E a i inp l.
            trace (fst (final_state (for_content E a [ToolUse i name inp]
                      (snd (connect_to_server server_name be b), l))))
            = trace (snd (connect_to_server server_name be b))
              @ [ToolCall s2 name inp
                   (fst (call_tool E s2 name inp (world (snd (connect_to_server server_name be b)))))])"
proof -
  let ?b' = "snd (connect_to_server server_name be b)"
  from offered connected have "name \<in> set (registered_keys be)"
    by (auto simp: registered_keys_def)
  with connected have resolved: "dict_get (sessions ?b') name = Some s2"
    by (simp add: sessions_connect_to_server)
  have "trace (fst (final_state (for_content E a [ToolUse i name inp] (?b', l))))
          = trace ?b' @ [ToolCall s2 name inp (fst (call_tool E s2 name inp (world ?b')))]"
    for E :: "'a service" and a i inp l
  proof -
    obtain r w where call: "call_tool E s2 name inp (world ?b') = (r, w)"
      by (cases "call_tool E s2 name inp (world ?b')")
    show ?thesis
      using resolved call by (cases r) (simp_all add: Let_def)
  qed
  with resolved show ?thesis by blast
qed

theorem C9_shared_mapping_collides_witness:
  "dict_get (sessions (register_tools 1 [search_tool] (init ()))) ''search'' = Some 1
   \<and> dict_get (sessions (snd (connect_to_server ''second'' prompt_backend
                                 (register_tools 1 [search_tool] (init ()))))) ''search'' = Some 2"
proof -
  have h1: "dict_get (sessions (register_tools 1 [search_tool] (init ()))) ''search'' = Some 1"
    by (simp add: search_tool_def init_def dict_get_def)
  have h2: "connect prompt_backend = Inr 2"
    by (simp add: prompt_backend_def)
  have h3: "''search'' \<in> mp_name ` set (listed (prompts prompt_backend))
            \<or> ''search'' \<in> set (listed (resources prompt_backend))"
    by (simp add: prompt_backend_def)
  from C9_shared_mapping_collides [OF h1 h2 h3, of "''second''"] h1 show ?thesis
    by blast
qed

section \<open>Claims about the Router and the Command Dispatcher\<close>

lemma first_papers_Some:
  "first_papers S = Some s \<Longrightarrow> \<exists>k. (k, s) \<in> set S \<and> startswith k ''papers://''"
  by (induction S) (auto split: if_splits)

lemma first_papers_None:
  "(first_papers S = None) = (\<forall>k \<in> fst ` set S. \<not> startswith k ''papers://'')"
proof (induction S)
  case Nil
  then show ?case by simp
next
  case (Cons p S)
  obtain k s where p: "p = (k, s)" by (cases p)
  show ?case
    using Cons p by (cases "startswith k ''papers://''") simp_all
qed

lemma while_loop_trace:
  "while_loop n E (b, l) = Some out \<Longrightarrow> \<exists>events. trace (fst (outcome_state out)) = trace b @ events"
proof (induction n arbitrary: b l)
  case 0
  then show ?case by simp
next
  case (Suc n)
  from loop_body_submits [of E b l] obtain events where
    ev: "trace (fst (round_state (loop_body E (b, l)))) = trace b @ events"
    by blast
  show ?case
  proof (cases "loop_body E (b, l)")
    case (Again s')
    obtain b' l' where s': "s' = (b', l')" by (cases s')
    with Suc.prems Again have "while_loop n E (b', l') = Some out" by simp
    from Suc.IH [OF this] obtain events' where "trace (fst (outcome_state out)) = trace b' @ events'"
      by blast
    with ev Again s' show ?thesis by simp
  next
    case (Finished s')
    with Suc.prems ev show ?thesis by auto
  next
    case (Raised e s')
    with Suc.prems ev show ?thesis by auto
  qed
qed

lemma execute_prompt_calls:
  assumes "dict_get (sessions b) name = Some s"
      and "execute_prompt fuel E name args b = Some b'"
  shows "\<exists>r events. trace b' = trace b @ PromptCall s name args r # events"
proof -
  obtain r w where gp: "get_prompt E s name args (world b) = (r, w)"
    by (cases "get_prompt E s name args (world b)")
  show ?thesis
  proof (cases r)
    case (Inl e)
    with assms gp show ?thesis by (auto simp: execute_prompt_def)
  next
    case (Inr msgs)
    let ?b1 = "emit (PromptCall s name args (Inr msgs)) (b\<lparr>world := w\<rparr>)"
    show ?thesis
    proof (cases msgs)
      case Nil
      with assms gp Inr show ?thesis by (auto simp: execute_prompt_def)
    next
      case (Cons c rest)
      show ?thesis
      proof (cases "prompt_text c")
        case (Inl e)
        with assms gp Inr Cons show ?thesis by (auto simp: execute_prompt_def)
      next
        case ptext: (Inr query)
        let ?b2 = "emit (Print 236 [Str name]) ?b1"
        from assms gp Inr Cons ptext
        obtain out where pq: "process_query fuel E query ?b2 = Some out"
          by (cases "process_query fuel E query ?b2") (auto simp: execute_prompt_def Let_def)
        then obtain out' where wl: "while_loop fuel E (?b2, query_locals query) = Some out'"
          and fst_eq: "trace (fst (outcome_state out')) = trace (outcome_state out)"
          by (cases "while_loop fuel E (?b2, query_locals query)")
             (auto simp: process_query_def split: outcome.splits)
        from while_loop_trace [OF wl] fst_eq obtain events where
          ev: "trace (outcome_state out) = trace ?b2 @ events"
          by auto
        from assms gp Inr Cons ptext pq
        have "\<exists>more. trace b' = trace (outcome_state out) @ more"
          by (cases out) (auto simp: execute_prompt_def Let_def)
        with ev show ?thesis by auto
      qed
    qed
  qed
qed

lemma lower_prompt: "lower ''/prompt'' = ''/prompt''"
  by code_simp

lemma split_prompt: "split ''/prompt'' = [''/prompt'']"
  by (simp add: split_def isspace_def)

lemma parse_args_lookup:
  "dict_get (parse_args tokens d) key =
     (case map_of (rev (map (\<lambda>t. (takeWhile (\<lambda>c. c \<noteq> CHR ''='') t, tl (dropWhile (\<lambda>c. c \<noteq> CHR ''='') t)))
                         (filter (\<lambda>t. CHR ''='' \<in> set t) tokens))) key of
        Some v \<Rightarrow> Some v
      | None \<Rightarrow> dict_get d key)"
proof (induction tokens arbitrary: d)
  case Nil
  then show ?case by simp
next
  case (Cons t tokens)
  show ?case
    by (simp add: Cons.IH dict_get_dict_set map_add_def split: option.splits)
qed

text \<open>
  C6: a tool or prompt name that is not a key of \<open>sessions\<close> is reported as not found,
  with no backend call, whatever other keys are registered; a name that is a key is served
  by exactly the connection stored under it: the tool call goes to it, and prompt
  execution is, for every number of rounds, what \<open>get_prompt\<close> on that connection and the
  query it yields give. A resource URI that is a key resolves to the connection stored
  under it. A URI that is not a key resolves to something exactly when it begins with
  \<open>papers://\<close> and some registered key begins with \<open>papers://\<close> too, and then to a
  connection registered under such a key. Resource retrieval follows the resolution: when
  it yields a connection, \<open>read_resource\<close> is called on that connection with the requested
  URI and its result is printed; when it yields none, "not found" is printed and nothing
  is called.
\<close>

theorem C6_router_resolution:
  "(name \<notin> fst ` set (sessions b) \<longrightarrow>
      for_content E a (ToolUse i name inp # rest) (b, l)
        = Inr (emit (tool_not_found name) b,
               l\<lparr>has_tool_use := True,
                 store := append_at a (ToolUse i name inp) (store l),
                 messages := messages l @ [(Assistant, Segments a)]\<rparr>)
    \<and> execute_prompt fuel E name args b = Some (emit (prompt_not_found name) b))
 \<and> (dict_get (sessions b) name = Some s \<longrightarrow>
      trace (fst (final_state (for_content E a [ToolUse i name inp] (b, l))))
        = trace b @ [ToolCall s name inp (fst (call_tool E s name inp (world b)))]
    \<and> (\<forall>b'. execute_prompt fuel E name args b = Some b' \<longrightarrow>
          (\<exists>r events. trace b' = trace b @ PromptCall s name args r # events))
    \<and> execute_prompt fuel E name args b =
        (case get_prompt E s name args (world b) of
           (Inl e, w) \<Rightarrow>
             Some (emit (Print 239 [Exn e]) (emit (PromptCall s name args (Inl e)) (b\<lparr>world := w\<rparr>)))
         | (Inr msgs, w) \<Rightarrow>
             (case msgs of
                [] \<Rightarrow> Some (emit (PromptCall s name args (Inr msgs)) (b\<lparr>world := w\<rparr>))
              | c # others \<Rightarrow>
                  (case prompt_text c of
                     Inl e \<Rightarrow>
                       Some (emit (Print 239 [Exn e])
                               (emit (PromptCall s name args (Inr msgs)) (b\<lparr>world := w\<rparr>)))
                   | Inr query \<Rightarrow>
                       (case process_query fuel E query
                               (emit (Print 236 [Str name])
                                  (emit (PromptCall s name args (Inr msgs)) (b\<lparr>world := w\<rparr>))) of
                          None \<Rightarrow> None
                        | Some (Returned b2) \<Rightarrow> Some b2
                        | Some (Raises e b2) \<Rightarrow> Some (emit (Print 239 [Exn e]) b2))))))
 \<and> (dict_get S uri = Some s \<longrightarrow> resolve_resource S uri = Some s)
 \<and> (uri \<notin> fst ` set S \<longrightarrow>
      (resolve_resource S uri \<noteq> None)
        = (startswith uri ''papers://'' \<and> (\<exists>k \<in> fst ` set S. startswith k ''papers://''))
    \<and> (\<forall>s'. resolve_resource S uri = Some s' \<longrightarrow>
          (\<exists>k. (k, s') \<in> set S \<and> startswith k ''papers://'')))
 \<and> (uri \<notin> fst ` set (sessions b) \<and> \<not> startswith uri ''papers://'' \<longrightarrow>
      get_resource E uri b = emit (resource_not_found uri) b)
 \<and> (resolve_resource (sessions b) uri = None \<longrightarrow>
      get_resource E uri b = emit (resource_not_found uri) b)
 \<and> (resolve_resource (sessions b) uri = Some s \<longrightarrow>
      world (get_resource E uri b) = snd (read_resource E s uri (world b))
    \<and> sessions (get_resource E uri b) = sessions b
    \<and> trace (get_resource E uri b)
        = trace b @ ResourceCall s uri (fst (read_resource E s uri (world b)))
            # (case fst (read_resource E s uri (world b)) of
                 Inl e \<Rightarrow> [Print 197 [Exn e]]
               | Inr [] \<Rightarrow> [Print 195 []]
               | Inr (TextResource t # others) \<Rightarrow>
                   [Print 191 [Str uri], Print 192 [], Print 193 [Str t]]
               | Inr (BlobResource # others) \<Rightarrow>
                   [Print 191 [Str uri], Print 192 [], Print 197 [Exn AttributeError]]))
 \<and> (uri \<notin> fst ` set (sessions b) \<and> startswith uri ''papers://''
      \<and> (\<exists>k \<in> fst ` set (sessions b). startswith k ''papers://'') \<longrightarrow>
      (\<exists>k s'. (k, s') \<in> set (sessions b) \<and> startswith k ''papers://''
         \<and> (\<exists>events. trace (get_resource E uri b)
               = trace b @ ResourceCall s' uri (fst (read_resource E s' uri (world b))) # events)))"
proof -
  have key_None: "dict_get d k = None" if "k \<notin> fst ` set d" for d :: "(string, session) dict" and k
    using that by (simp add: dict_get_def map_of_eq_None_iff)
  have tool_missing: "name \<notin> fst ` set (sessions b) \<longrightarrow>
      for_content E a (ToolUse i name inp # rest) (b, l)
        = Inr (emit (tool_not_found name) b,
               l\<lparr>has_tool_use := True,
                 store := append_at a (ToolUse i name inp) (store l),
                 messages := messages l @ [(Assistant, Segments a)]\<rparr>)
    \<and> execute_prompt fuel E name args b = Some (emit (prompt_not_found name) b)"
    using key_None [of name "sessions b"] by (simp add: Let_def execute_prompt_def)
  have tool_found0: "dict_get (sessions b) name = Some s \<longrightarrow>
      trace (fst (final_state (for_content E a [ToolUse i name inp] (b, l))))
        = trace b @ [ToolCall s name inp (fst (call_tool E s name inp (world b)))]
    \<and> (\<forall>b'. execute_prompt fuel E name args b = Some b' \<longrightarrow>
          (\<exists>r events. trace b' = trace b @ PromptCall s name args r # events))"
  proof
    assume reg: "dict_get (sessions b) name = Some s"
    obtain r w where call: "call_tool E s name inp (world b) = (r, w)"
      by (cases "call_tool E s name inp (world b)")
    have "trace (fst (final_state (for_content E a [ToolUse i name inp] (b, l))))
        = trace b @ [ToolCall s name inp (fst (call_tool E s name inp (world b)))]"
      using reg call by (cases r) (simp_all add: Let_def)
    moreover have "\<forall>b'. execute_prompt fuel E name args b = Some b' \<longrightarrow>
          (\<exists>r events. trace b' = trace b @ PromptCall s name args r # events)"
      using execute_prompt_calls [OF reg] by blast
    ultimately show "trace (fst (final_state (for_content E a [ToolUse i name inp] (b, l))))
        = trace b @ [ToolCall s name inp (fst (call_tool E s name inp (world b)))]
    \<and> (\<forall>b'. execute_prompt fuel E name args b = Some b' \<longrightarrow>
          (\<exists>r events. trace b' = trace b @ PromptCall s name args r # events))"
      by blast
  qed
  have prompt_served: "dict_get (sessions b) name = Some s \<longrightarrow>
      execute_prompt fuel E name args b =
        (case get_prompt E s name args (world b) of
           (Inl e, w) \<Rightarrow>
             Some (emit (Print 239 [Exn e]) (emit (PromptCall s name args (Inl e)) (b\<lparr>world := w\<rparr>)))
         | (Inr msgs, w) \<Rightarrow>
             (case msgs of
                [] \<Rightarrow> Some (emit (PromptCall s name args (Inr msgs)) (b\<lparr>world := w\<rparr>))
              | c # others \<Rightarrow>
                  (case prompt_text c of
                     Inl e \<Rightarrow>
                       Some (emit (Print 239 [Exn e])
                               (emit (PromptCall s name args (Inr msgs)) (b\<lparr>world := w\<rparr>)))
                   | Inr query \<Rightarrow>
                       (case process_query fuel E query
                               (emit (Print 236 [Str name])
                                  (emit (PromptCall s name args (Inr msgs)) (b\<lparr>world := w\<rparr>))) of
                          None \<Rightarrow> None
                        | Some (Returned b2) \<Rightarrow> Some b2
                        | Some (Raises e b2) \<Rightarrow> Some (emit (Print 239 [Exn e]) b2)))))"
    by (simp add: execute_prompt_def Let_def split: prod.splits sum.splits list.splits)
  have tool_found: "dict_get (sessions b) name = Some s \<longrightarrow>
      trace (fst (final_state (for_content E a [ToolUse i name inp] (b, l))))
        = trace b @ [ToolCall s name inp (fst (call_tool E s name inp (world b)))]
    \<and> (\<forall>b'. execute_prompt fuel E name args b = Some b' \<longrightarrow>
          (\<exists>r events. trace b' = trace b @ PromptCall s name args r # events))
    \<and> execute_prompt fuel E name args b =
        (case get_prompt E s name args (world b) of
           (Inl e, w) \<Rightarrow>
             Some (emit (Print 239 [Exn e]) (emit (PromptCall s name args (Inl e)) (b\<lparr>world := w\<rparr>)))
         | (Inr msgs, w) \<Rightarrow>
             (case msgs of
                [] \<Rightarrow> Some (emit (PromptCall s name args (Inr msgs)) (b\<lparr>world := w\<rparr>))
              | c # others \<Rightarrow>
                  (case prompt_text c of
                     Inl e \<Rightarrow>
                       Some (emit (Print 239 [Exn e])
                               (emit (PromptCall s name args (Inr msgs)) (b\<lparr>world := w\<rparr>)))
                   | Inr query \<Rightarrow>
                       (case process_query fuel E query
                               (emit (Print 236 [Str name])
                                  (emit (PromptCall s name args (Inr msgs)) (b\<lparr>world := w\<rparr>))) of
                          None \<Rightarrow> None
                        | Some (Returned b2) \<Rightarrow> Some b2
                        | Some (Raises e b2) \<Rightarrow> Some (emit (Print 239 [Exn e]) b2)))))"
    using tool_found0 prompt_served by blast
  have exact: "dict_get S uri = Some s \<longrightarrow> resolve_resource S uri = Some s"
    by (simp add: resolve_resource_def)
  have fallback: "uri \<notin> fst ` set S \<longrightarrow>
      (resolve_resource S uri \<noteq> None)
        = (startswith uri ''papers://'' \<and> (\<exists>k \<in> fst ` set S. startswith k ''papers://''))
    \<and> (\<forall>s'. resolve_resource S uri = Some s' \<longrightarrow>
          (\<exists>k. (k, s') \<in> set S \<and> startswith k ''papers://''))"
  proof
    assume "uri \<notin> fst ` set S"
    then have r: "resolve_resource S uri = (if startswith uri ''papers://'' then first_papers S else None)"
      using key_None [of uri S] by (simp add: resolve_resource_def)
    show "(resolve_resource S uri \<noteq> None)
        = (startswith uri ''papers://'' \<and> (\<exists>k \<in> fst ` set S. startswith k ''papers://''))
      \<and> (\<forall>s'. resolve_resource S uri = Some s' \<longrightarrow>
          (\<exists>k. (k, s') \<in> set S \<and> startswith k ''papers://''))"
      unfolding r using first_papers_None [of S] first_papers_Some [of S]
      by (cases "startswith uri ''papers://''") auto
  qed
  have unknown: "uri \<notin> fst ` set (sessions b) \<and> \<not> startswith uri ''papers://'' \<longrightarrow>
      get_resource E uri b = emit (resource_not_found uri) b"
    using key_None [of uri "sessions b"] by (simp add: get_resource_def resolve_resource_def)
  have res_none: "resolve_resource (sessions b) uri = None \<longrightarrow>
      get_resource E uri b = emit (resource_not_found uri) b"
    by (simp add: get_resource_def)
  have res_some: "resolve_resource (sessions b) uri = Some s \<longrightarrow>
      world (get_resource E uri b) = snd (read_resource E s uri (world b))
    \<and> sessions (get_resource E uri b) = sessions b
    \<and> trace (get_resource E uri b)
        = trace b @ ResourceCall s uri (fst (read_resource E s uri (world b)))
            # (case fst (read_resource E s uri (world b)) of
                 Inl e \<Rightarrow> [Print 197 [Exn e]]
               | Inr [] \<Rightarrow> [Print 195 []]
               | Inr (TextResource t # others) \<Rightarrow>
                   [Print 191 [Str uri], Print 192 [], Print 193 [Str t]]
               | Inr (BlobResource # others) \<Rightarrow>
                   [Print 191 [Str uri], Print 192 [], Print 197 [Exn AttributeError]])"
  proof
    assume found: "resolve_resource (sessions b) uri = Some s"
    obtain r w where rr: "read_resource E s uri (world b) = (r, w)"
      by (cases "read_resource E s uri (world b)")
    show "world (get_resource E uri b) = snd (read_resource E s uri (world b))
    \<and> sessions (get_resource E uri b) = sessions b
    \<and> trace (get_resource E uri b)
        = trace b @ ResourceCall s uri (fst (read_resource E s uri (world b)))
            # (case fst (read_resource E s uri (world b)) of
                 Inl e \<Rightarrow> [Print 197 [Exn e]]
               | Inr [] \<Rightarrow> [Print 195 []]
               | Inr (TextResource t # others) \<Rightarrow>
                   [Print 191 [Str uri], Print 192 [], Print 193 [Str t]]
               | Inr (BlobResource # others) \<Rightarrow>
                   [Print 191 [Str uri], Print 192 [], Print 197 [Exn AttributeError]])"
      using found rr
      by (simp add: get_resource_def Let_def split: sum.splits list.splits resource_content.splits)
  qed
  have res_fallback: "uri \<notin> fst ` set (sessions b) \<and> startswith uri ''papers://''
      \<and> (\<exists>k \<in> fst ` set (sessions b). startswith k ''papers://'') \<longrightarrow>
      (\<exists>k s'. (k, s') \<in> set (sessions b) \<and> startswith k ''papers://''
         \<and> (\<exists>events. trace (get_resource E uri b)
               = trace b @ ResourceCall s' uri (fst (read_resource E s' uri (world b))) # events))"
  proof
    assume hyp: "uri \<notin> fst ` set (sessions b) \<and> startswith uri ''papers://''
      \<and> (\<exists>k \<in> fst ` set (sessions b). startswith k ''papers://'')"
    then have r: "resolve_resource (sessions b) uri = first_papers (sessions b)"
      using key_None [of uri "sessions b"] by (simp add: resolve_resource_def)
    from hyp first_papers_None [of "sessions b"] obtain s' where fp: "first_papers (sessions b) = Some s'"
      by (cases "first_papers (sessions b)") auto
    from first_papers_Some [OF fp] obtain k where k: "(k, s') \<in> set (sessions b)" "startswith k ''papers://''"
      by blast
    obtain r' w where rr: "read_resource E s' uri (world b) = (r', w)"
      by (cases "read_resource E s' uri (world b)")
    have "\<exists>events. trace (get_resource E uri b)
               = trace b @ ResourceCall s' uri (fst (read_resource E s' uri (world b))) # events"
      using r fp rr
      by (simp add: get_resource_def Let_def split: sum.splits list.splits resource_content.splits)
    with k show "\<exists>k s'. (k, s') \<in> set (sessions b) \<and> startswith k ''papers://''
         \<and> (\<exists>events. trace (get_resource E uri b)
               = trace b @ ResourceCall s' uri (fst (read_resource E s' uri (world b))) # events)"
      by blast
  qed
  from tool_missing tool_found exact fallback unknown res_none res_some res_fallback
  show ?thesis by blast
qed

theorem C6_router_resolution_witness:
  "execute_prompt 1 (scripted []) ''papers'' [] papers_bot
     = Some (emit (prompt_not_found ''papers'') papers_bot)
   \<and> resolve_resource (sessions papers_bot) ''papers://ai'' \<noteq> None
   \<and> resolve_resource (sessions papers_bot) ''search'' = Some 1
   \<and> trace (fst (final_state (for_content (scripted []) 0 [ToolUse ''id1'' ''search'' JNull]
                     (papers_bot, (query_locals ''q'')\<lparr>store := [[]]\<rparr>))))
       = [ToolCall 1 ''search'' JNull (Inr (JStr ''search''))]
   \<and> get_resource (scripted []) ''notes://x'' papers_bot
       = emit (resource_not_found ''notes://x'') papers_bot
   \<and> execute_prompt (Suc 0) (scripted [[Text ''hi'']]) ''foo'' [] papers_bot
       = Some (papers_bot\<lparr>world := 1,
                 trace := [PromptCall 3 ''foo'' [] (Inr [PStr ''hello'']), Print 236 [Str ''foo''],
                           ModelCall [] [(User, QueryText ''hello'')] (Inr [Text ''hi'']),
                           text_out ''hi'']\<rparr>)
   \<and> trace (get_resource (scripted []) ''papers://ai'' papers_bot)
       = [ResourceCall 2 ''papers://ai'' (Inr [TextResource ''papers://ai'']),
          Print 191 [Str ''papers://ai''], Print 192 [], Print 193 [Str ''papers://ai'']]"
proof -
  have h1: "''papers'' \<notin> fst ` set (sessions papers_bot)"
    by (simp add: papers_bot_def)
  have h2: "''papers://ai'' \<notin> fst ` set (sessions papers_bot)"
    by (simp add: papers_bot_def)
  have h3: "startswith ''papers://ai'' ''papers://''
            \<and> (\<exists>k \<in> fst ` set (sessions papers_bot). startswith k ''papers://'')"
    by (simp add: papers_bot_def startswith_def)
  have h4: "dict_get (sessions papers_bot) ''search'' = Some 1"
    by (simp add: papers_bot_def dict_get_def)
  have h5: "''notes://x'' \<notin> fst ` set (sessions papers_bot) \<and> \<not> startswith ''notes://x'' ''papers://''"
    by (simp add: papers_bot_def startswith_def)
  have h6: "dict_get (sessions papers_bot) ''foo'' = Some 3"
    by (simp add: papers_bot_def dict_get_def)
  have h7: "resolve_resource (sessions papers_bot) ''papers://ai'' = Some 2"
    by (simp add: papers_bot_def resolve_resource_def dict_get_def startswith_def)
  from C6_router_resolution [where name = "''papers''" and b = papers_bot and fuel = 1
         and E = "scripted []" and args = "[]" and S = "sessions papers_bot"
         and uri = "''papers://ai''"] h1 h2 h3
  have a: "execute_prompt 1 (scripted []) ''papers'' [] papers_bot
             = Some (emit (prompt_not_found ''papers'') papers_bot)"
    and b: "resolve_resource (sessions papers_bot) ''papers://ai'' \<noteq> None"
    by blast+
  from C6_router_resolution [where S = "sessions papers_bot" and uri = "''search''" and s = 1
         and name = "''search''" and b = papers_bot and E = "scripted []" and a = 0
         and i = "''id1''" and inp = JNull and l = "(query_locals ''q'')\<lparr>store := [[]]\<rparr>"] h4
  have c: "resolve_resource (sessions papers_bot) ''search'' = Some 1"
    and d0: "trace (fst (final_state (for_content (scripted []) 0 [ToolUse ''id1'' ''search'' JNull]
                     (papers_bot, (query_locals ''q'')\<lparr>store := [[]]\<rparr>))))
       = trace papers_bot
         @ [ToolCall 1 ''search'' JNull (fst (call_tool (scripted []) 1 ''search'' JNull (world papers_bot)))]"
    by blast+
  from d0 have d: "trace (fst (final_state (for_content (scripted []) 0 [ToolUse ''id1'' ''search'' JNull]
                     (papers_bot, (query_locals ''q'')\<lparr>store := [[]]\<rparr>))))
       = [ToolCall 1 ''search'' JNull (Inr (JStr ''search''))]"
    by (simp add: papers_bot_def init_def scripted_def)
  from C6_router_resolution [where b = papers_bot and uri = "''notes://x''" and E = "scripted []"] h5
  have e: "get_resource (scripted []) ''notes://x'' papers_bot
       = emit (resource_not_found ''notes://x'') papers_bot"
    by blast
  from C6_router_resolution [where name = "''foo''" and s = 3 and b = papers_bot
         and fuel = "Suc 0" and E = "scripted [[Text ''hi'']]" and args = "[]"] h6
  have "execute_prompt (Suc 0) (scripted [[Text ''hi'']]) ''foo'' [] papers_bot =
        (case get_prompt (scripted [[Text ''hi'']]) 3 ''foo'' [] (world papers_bot) of
           (Inl e, w) \<Rightarrow>
             Some (emit (Print 239 [Exn e]) (emit (PromptCall 3 ''foo'' [] (Inl e)) (papers_bot\<lparr>world := w\<rparr>)))
         | (Inr msgs, w) \<Rightarrow>
             (case msgs of
                [] \<Rightarrow> Some (emit (PromptCall 3 ''foo'' [] (Inr msgs)) (papers_bot\<lparr>world := w\<rparr>))
              | c # others \<Rightarrow>
                  (case prompt_text c of
                     Inl e \<Rightarrow>
                       Some (emit (Print 239 [Exn e])
                               (emit (PromptCall 3 ''foo'' [] (Inr msgs)) (papers_bot\<lparr>world := w\<rparr>)))
                   | Inr query \<Rightarrow>
                       (case process_query (Suc 0) (scripted [[Text ''hi'']]) query
                               (emit (Print 236 [Str ''foo''])
                                  (emit (PromptCall 3 ''foo'' [] (Inr msgs)) (papers_bot\<lparr>world := w\<rparr>))) of
                          None \<Rightarrow> None
                        | Some (Returned b2) \<Rightarrow> Some b2
                        | Some (Raises e b2) \<Rightarrow> Some (emit (Print 239 [Exn e]) b2)))))"
    by blast
  then have f: "execute_prompt (Suc 0) (scripted [[Text ''hi'']]) ''foo'' [] papers_bot
       = Some (papers_bot\<lparr>world := 1,
                 trace := [PromptCall 3 ''foo'' [] (Inr [PStr ''hello'']), Print 236 [Str ''foo''],
                           ModelCall [] [(User, QueryText ''hello'')] (Inr [Text ''hi'']),
                           text_out ''hi'']\<rparr>)"
    by (simp add: scripted_def papers_bot_def init_def emit_def process_query_def query_locals_def
          loop_body_def read_transcript_def append_at_def Let_def)
  from C6_router_resolution [where b = papers_bot and uri = "''papers://ai''" and s = 2
         and E = "scripted []"] h7
  have "trace (get_resource (scripted []) ''papers://ai'' papers_bot)
        = trace papers_bot @ ResourceCall 2 ''papers://ai''
              (fst (read_resource (scripted []) 2 ''papers://ai'' (world papers_bot)))
            # (case fst (read_resource (scripted []) 2 ''papers://ai'' (world papers_bot)) of
                 Inl e \<Rightarrow> [Print 197 [Exn e]]
               | Inr [] \<Rightarrow> [Print 195 []]
               | Inr (TextResource t # others) \<Rightarrow>
                   [Print 191 [Str ''papers://ai''], Print 192 [], Print 193 [Str t]]
               | Inr (BlobResource # others) \<Rightarrow>
                   [Print 191 [Str ''papers://ai''], Print 192 [], Print 197 [Exn AttributeError]])"
    by blast
  then have g: "trace (get_resource (scripted []) ''papers://ai'' papers_bot)
       = [ResourceCall 2 ''papers://ai'' (Inr [TextResource ''papers://ai'']),
          Print 191 [Str ''papers://ai''], Print 192 [], Print 193 [Str ''papers://ai'']]"
    by (simp add: scripted_def papers_bot_def init_def)
  from a b c d e f g show ?thesis by blast
qed

text \<open>
  C8: the argument mapping built from the tokens after the prompt name gives, for every
  key, the value of the last token \<open>key=value\<close> with that key, where a token is cut at its
  first \<open>=\<close>; tokens without \<open>=\<close> change nothing. On the three lines of the claim the
  mapping is \<open>{a: 1, b: 2}\<close>, \<open>{a: 2}\<close> and the empty mapping.
\<close>

theorem C8_prompt_arguments:
  "dict_get (parse_args tokens []) key
     = map_of (rev (map (\<lambda>t. (takeWhile (\<lambda>c. c \<noteq> CHR ''='') t, tl (dropWhile (\<lambda>c. c \<noteq> CHR ''='') t)))
                      (filter (\<lambda>t. CHR ''='' \<in> set t) tokens))) key
 \<and> (CHR ''='' \<notin> set k \<longrightarrow> parse_args [k @ ''='' @ v] [] = [(k, v)])
 \<and> (CHR ''='' \<notin> set t \<longrightarrow> parse_args (t # tokens) d = parse_args tokens d)
 \<and> parse_args (drop 2 (split ''/prompt foo a=1 b=2'')) [] = [(''a'', ''1''), (''b'', ''2'')]
 \<and> parse_args (drop 2 (split ''/prompt foo a=1 a=2'')) [] = [(''a'', ''2'')]
 \<and> parse_args (drop 2 (split ''/prompt foo bare'')) [] = []"
proof -
  have general: "dict_get (parse_args tokens []) key
     = map_of (rev (map (\<lambda>t. (takeWhile (\<lambda>c. c \<noteq> CHR ''='') t, tl (dropWhile (\<lambda>c. c \<noteq> CHR ''='') t)))
                      (filter (\<lambda>t. CHR ''='' \<in> set t) tokens))) key"
  proof -
    have "dict_get ([] :: (string, string) dict) key = None"
      by (simp add: dict_get_def)
    then show ?thesis
      by (simp add: parse_args_lookup split: option.splits)
  qed
  have first_eq: "CHR ''='' \<notin> set k \<longrightarrow> parse_args [k @ ''='' @ v] [] = [(k, v)]"
    by (simp add: takeWhile_append dropWhile_append)
  have bare: "CHR ''='' \<notin> set t \<longrightarrow> parse_args (t # tokens) d = parse_args tokens d"
    by simp
  have e1: "parse_args (drop 2 (split ''/prompt foo a=1 b=2'')) [] = [(''a'', ''1''), (''b'', ''2'')]"
    by (simp add: split_def isspace_def)
  have e2: "parse_args (drop 2 (split ''/prompt foo a=1 a=2'')) [] = [(''a'', ''2'')]"
    by (simp add: split_def isspace_def)
  have e3: "parse_args (drop 2 (split ''/prompt foo bare'')) [] = []"
    by (simp add: split_def isspace_def)
  from general first_eq bare e1 e2 e3 show ?thesis by blast
qed

theorem C8_prompt_arguments_witness:
  "CHR ''='' \<notin> set ''url'' \<and> parse_args [''url=a=b''] [] = [(''url'', ''a=b'')]
   \<and> CHR ''='' \<notin> set ''bare'' \<and> parse_args [''bare'', ''x=1''] [] = parse_args [''x=1''] []"
proof -
  have h1: "CHR ''='' \<notin> set ''url''" by simp
  have h2: "CHR ''='' \<notin> set ''bare''" by simp
  from C8_prompt_arguments [where k = "''url''" and v = "''a=b''" and t = "''bare''"
                                and tokens = "[''x=1'']" and d = "[]"] h1 h2
  show ?thesis by simp
qed

text \<open>
  C10: when the input line, stripped, is exactly \<open>/prompt\<close>, the iteration prints the usage
  message and changes nothing else: the world is untouched (no backend or model call), the
  outcome does not depend on \<open>sessions\<close> (no lookup), and the loop continues with the next
  input.
\<close>

theorem C10_bare_prompt_prints_usage:
  assumes "strip raw = ''/prompt''"
  shows "chat_loop_body fuel E raw b = Some (Continue, emit usage b)
       \<and> chat_loop_from fuel E (Line raw # rest) b = chat_loop_from fuel E rest (emit usage b)"
proof -
  have "chat_loop_body fuel E raw b = Some (Continue, emit usage b)"
    using assms by (simp add: chat_loop_body_def lower_prompt split_prompt startswith_def)
  then show ?thesis by simp
qed

theorem C10_bare_prompt_prints_usage_witness:
  "strip ''  /prompt '' = ''/prompt''
   \<and> chat_loop_body 3 (scripted []) ''  /prompt '' papers_bot = Some (Continue, emit usage papers_bot)"
proof -
  have h: "strip ''  /prompt '' = ''/prompt''"
    by (simp add: strip_def isspace_def)
  from C10_bare_prompt_prints_usage [OF h] h show ?thesis by blast
qed

end
